theory Spec2Isabelle
  imports Main "HOL-Library.Sublist" "HOL-Library.DAList"
begin

section \<open>Python values used by app.py\<close>

text \<open>
  A Python \<open>str\<close> is modelled as a \<open>string\<close>; a character outside ASCII stands as its
  UTF-8 bytes. The string operations app.py uses on modelled strings (equality,
  concatenation, \<open>in\<close>, \<open>endswith("E")\<close>, \<open>replace(" ", "")\<close>, \<open>join\<close>) give the same
  answer on the UTF-8 bytes as on the code points.
\<close>

text \<open>The value \<open>r.json()\<close> returns. A \<open>JObj\<close> lists the items of the parsed dict in
  insertion order; \<open>JNum\<close> stands for every JSON number (app.py never computes with one).\<close>

datatype json =
    JNull
  | JBool bool
  | JNum int
  | JStr string
  | JArr "json list"
  | JObj "(string \<times> json) list"

text \<open>The exceptions that can leave the functions of app.py. \<open>RequestException\<close> is
  whatever \<open>requests.get\<close> itself raises (no connection, timeout expired).\<close>

datatype error =
    RequestException
  | HTTPError nat
  | JSONDecodeError
  | KeyError string
  | TypeError
  | AttributeError
  | IndexError
  | ValueError

text \<open>\<open>needle in hay\<close> for two strings: \<open>needle\<close> occurs as a contiguous run.\<close>

fun str_in :: "string \<Rightarrow> string \<Rightarrow> bool" where
  "str_in needle [] = (needle = [])"
| "str_in needle (c # cs) = (prefix needle (c # cs) \<or> str_in needle cs)"

text \<open>\<open>needle in hay\<close> where \<open>hay\<close> is any parsed JSON value: substring test on a
  \<open>str\<close>, membership on a \<open>list\<close>, key membership on a \<open>dict\<close>, and
  \<open>TypeError\<close> on \<open>None\<close>, a \<open>bool\<close> or a number.\<close>

fun py_in :: "string \<Rightarrow> json \<Rightarrow> error + bool" where
  "py_in needle (JStr hay) = Inr (str_in needle hay)"
| "py_in needle (JArr xs) = Inr (JStr needle \<in> set xs)"
| "py_in needle (JObj kvs) = Inr (needle \<in> set (map fst kvs))"
| "py_in needle _ = Inl TypeError"

definition endswith :: "string \<Rightarrow> string \<Rightarrow> bool" where
  "endswith s suf = suffix suf s"

text \<open>\<open>s.replace(" ", "")\<close>: every U+0020 is removed, nothing else.\<close>

definition replace_spaces :: "string \<Rightarrow> string" where
  "replace_spaces s = filter (\<lambda>c. c \<noteq> CHR '' '') s"

text \<open>\<open>sep.join(xs)\<close>.\<close>

fun join :: "string \<Rightarrow> string list \<Rightarrow> string" where
  "join sep [] = []"
| "join sep [x] = x"
| "join sep (x # y # ys) = x @ sep @ join sep (y # ys)"

text \<open>\<open>obj[key]\<close> with a string key.\<close>

fun getitem :: "json \<Rightarrow> string \<Rightarrow> error + json" where
  "getitem (JObj kvs) k = (case map_of kvs k of None \<Rightarrow> Inl (KeyError k) | Some v \<Rightarrow> Inr v)"
| "getitem _ k = Inl TypeError"

text \<open>\<open>obj.items()\<close>.\<close>

fun items :: "json \<Rightarrow> error + (string \<times> json) list" where
  "items (JObj kvs) = Inr kvs"
| "items _ = Inl AttributeError"

section \<open>Settings and the indicator tables\<close>

definition API_KEY :: string where
  "API_KEY = ''f6ba77c8a37e5c068c2d7a0020f3b56899318771''"

text \<open>\<open>YEAR = 2023\<close>, as the f-strings print it.\<close>

definition YEAR :: string where
  "YEAR = ''2023''"

definition STATE :: string where
  "STATE = ''53''"

definition PIERCE :: string where
  "PIERCE = ''053''"

text \<open>\<open>BASE_VARS\<close>: indicator \<open>\<mapsto>\<close> (variable code, dataset), in the order of the source.
  The sixth key holds U+2265, written as its three UTF-8 bytes.\<close>

definition BASE_VARS :: "(string \<times> string \<times> string) list" where
  "BASE_VARS =
    [(''HS diploma 25+ (%)'', ''DP02_0062PE'', ''profile''),
     (''Disability (%)'', ''S1810_C02_001E'', ''subject''),
     (''Speak English < very well (%)'', ''DP02_0110PE'', ''profile''),
     (''Poverty <100% FPL (%)'', ''S1701_C03_001E'', ''subject''),
     (''Median household income ($)'', ''S1901_C01_012E'', ''subject''),
     (''Housing cost '' @ [CHR 0xE2, CHR 0x89, CHR 0xA5] @ ''30% income (%)'',
        ''DP04_0138PE'', ''profile''),
     (''Unemployment rate 16+ (%)'', ''S2301_C04_001E'', ''subject''),
     (''Households with no vehicle (%)'', ''DP04_0058PE'', ''profile''),
     (''Insurance coverage (%)'', ''S2701_C03_001E'', ''subject'')]"

text \<open>\<open>DETAILED\<close>: indicator \<open>\<mapsto>\<close> (group id, numerator-label fragment, universe keyword).\<close>

definition DETAILED :: "(string \<times> string \<times> string \<times> string) list" where
  "DETAILED =
    [(''Disability (%)'', ''S1810'', ''With a disability'', ''civilian''),
     (''Poverty <100% FPL (%)'', ''S1701'', ''Below poverty level'', ''population''),
     (''Unemployment rate 16+ (%)'', ''S2301'', ''Unemployment rate'', ''population''),
     (''Insurance coverage (%)'', ''S2701'', ''No health insurance coverage'', ''civilian'')]"

section \<open>Geography clause\<close>

text \<open>\<open>geo_clause(level)\<close>. Its second argument is what the function reads from
  \<open>st.session_state\<close>: the value under \<open>"zcta_list"\<close>, \<open>None\<close> when the key is absent
  (then \<open>.get\<close> gives \<open>""\<close>). Any level other than the two Pierce levels takes the
  ZCTA branch.\<close>

definition geo_clause :: "string \<Rightarrow> string option \<Rightarrow> string option" where
  "geo_clause level zcta_list =
    (if level = ''County (Pierce)'' then
       Some (''for=county:'' @ PIERCE @ ''&in=state:'' @ STATE)
     else if level = ''Tract (Pierce)'' then
       Some (''for=tract:*&in=state:'' @ STATE @ ''%20county:'' @ PIERCE)
     else
       (let zips = replace_spaces (case zcta_list of None \<Rightarrow> [] | Some z \<Rightarrow> z)
        in if zips \<noteq> [] then Some (''for=zip%20code%20tabulation%20area:'' @ zips)
           else None))"

section \<open>HTTP, tables and the program state\<close>

text \<open>One call of \<open>requests.get\<close>: the URL and the \<open>timeout\<close> keyword (\<open>None\<close> when
  the call passes none).\<close>

record request =
  req_url :: string
  req_timeout :: "nat option"

text \<open>What \<open>requests.get\<close> returns: the status code, and what \<open>.json()\<close> gives
  (\<open>None\<close> when the body is not JSON, so that \<open>.json()\<close> raises).\<close>

record response =
  status_code :: nat
  body :: "json option"

text \<open>The remote side: the answer to a request may depend on the requests sent before.
  \<open>Inl\<close> is an exception raised by \<open>requests.get\<close> itself.\<close>

type_synonym network = "request list \<Rightarrow> request \<Rightarrow> error + response"

text \<open>A pandas table with the default row index \<open>0..index_len-1\<close>: its columns in order,
  each a name and one cell per row. \<open>NaN\<close> is the filler pandas puts where a row is
  missing.\<close>

datatype cell = Val json | NaN

record frame =
  index_len :: nat
  columns :: "(string \<times> cell list) list"

text \<open>A call of one of the two pull functions: \<open>pull_detailed(indicator, ...)\<close> or
  \<open>pull_simple(code, dataset, ...)\<close>.\<close>

datatype pull = Detailed string | Simple string string

text \<open>The module-level state: the list \<open>URL_HITS\<close>, the cache of \<open>@lru_cache\<close> on \<open>fetch\<close>
  (most recently used first) and the cache of \<open>@cache\<close> on \<open>get_labels\<close>. Two histories
  are kept beside them, which are not variables of app.py: every request handed to
  \<open>requests.get\<close>, and every call of \<open>pull_detailed\<close> and \<open>pull_simple\<close>, each in the
  order made.\<close>

record state =
  URL_HITS :: "string list"
  fetch_cache :: "(string \<times> frame) list"
  labels_cache :: "(string \<times> (string, json) alist) list"
  issued :: "request list"
  pulls :: "pull list"

definition init_state :: state where
  "init_state =
    \<lparr>URL_HITS = [], fetch_cache = [], labels_cache = [], issued = [], pulls = []\<rparr>"

text \<open>Streamlit executes app.py from the top on every interaction, so each press of Run
  runs lines 38, 50-51 and 59-60 again: \<open>URL_HITS\<close> is a new empty list, and \<open>fetch\<close> and
  \<open>get_labels\<close> are decorated anew, with empty caches. The two histories go on.\<close>

definition reload :: "state \<Rightarrow> state" where
  "reload s = s\<lparr>URL_HITS := [], fetch_cache := [], labels_cache := []\<rparr>"

definition http_get :: "network \<Rightarrow> request \<Rightarrow> state \<Rightarrow> (error + response) \<times> state" where
  "http_get net req s = (net (issued s) req, s\<lparr>issued := issued s @ [req]\<rparr>)"

text \<open>\<open>r.raise_for_status()\<close>: raises on 4xx and 5xx.\<close>

definition raise_for_status :: "response \<Rightarrow> error + unit" where
  "raise_for_status r =
    (if 400 \<le> status_code r \<and> status_code r < 600 then Inl (HTTPError (status_code r))
     else Inr ())"

subsection \<open>Tables\<close>

fun is_JStr :: "json \<Rightarrow> bool" where
  "is_JStr (JStr s) = True"
| "is_JStr _ = False"

text \<open>\<open>pd.DataFrame(j[1:], columns=j[0])\<close> as a function of the parsed body \<open>j\<close>: the
  table pandas builds, or the exception it (or the indexing of \<open>j\<close>) raises. pandas is
  not part of app.py; the functions below take this function as an argument, so what is
  proved of them holds whatever pandas does with a body.\<close>

type_synonym table_maker = "json \<Rightarrow> error + frame"

text \<open>\<open>Index.duplicated()\<close> with the default \<open>keep='first'\<close>: a position is marked when
  its name stands at an earlier position.\<close>

fun duplicated_from :: "string list \<Rightarrow> string list \<Rightarrow> bool list" where
  "duplicated_from seen [] = []"
| "duplicated_from seen (c # cs) = (c \<in> set seen) # duplicated_from (c # seen) cs"

definition duplicated :: "string list \<Rightarrow> bool list" where
  "duplicated cs = duplicated_from [] cs"

text \<open>\<open>df.loc[:, marks]\<close> for a list of booleans.\<close>

definition loc_columns :: "frame \<Rightarrow> bool list \<Rightarrow> frame" where
  "loc_columns df marks = df\<lparr>columns := map fst (filter snd (zip (columns df) marks))\<rparr>"

text \<open>\<open>df.loc[:, ~df.columns.duplicated()]\<close>.\<close>

definition drop_duplicated :: "frame \<Rightarrow> frame" where
  "drop_duplicated df = loc_columns df (map Not (duplicated (map fst (columns df))))"

text \<open>\<open>df.rename(columns=mapping)\<close>.\<close>

definition rename_columns :: "(string \<times> string) list \<Rightarrow> frame \<Rightarrow> frame" where
  "rename_columns mapping df =
    df\<lparr>columns := map (\<lambda>(c, xs). (case map_of mapping c of None \<Rightarrow> c | Some c' \<Rightarrow> c', xs))
                        (columns df)\<rparr>"

definition pad :: "nat \<Rightarrow> cell list \<Rightarrow> cell list" where
  "pad n xs = xs @ replicate (n - length xs) NaN"

text \<open>\<open>pd.concat(frames, axis=1)\<close>: raises \<open>ValueError\<close> on an empty list; otherwise the
  columns of all frames side by side, in order, over the union of the row indexes, a
  shorter frame filled with \<open>NaN\<close>.\<close>

definition concat_axis1 :: "frame list \<Rightarrow> error + frame" where
  "concat_axis1 frames =
    (if frames = [] then Inl ValueError
     else (let n = fold max (map index_len frames) 0
           in Inr \<lparr>index_len = n,
                    columns = concat (map (\<lambda>df. map (\<lambda>(c, xs). (c, pad n xs)) (columns df))
                                          frames)\<rparr>))"

section \<open>Fetch with its cache\<close>

text \<open>The body of \<open>fetch\<close>.\<close>

definition fetch_body ::
  "network \<Rightarrow> table_maker \<Rightarrow> string \<Rightarrow> state \<Rightarrow> (error + frame) \<times> state" where
  "fetch_body net DataFrame url s =
    (case http_get net \<lparr>req_url = url, req_timeout = Some 20\<rparr> s of
       (Inl e, s') \<Rightarrow> (Inl e, s')
     | (Inr r, s') \<Rightarrow>
         (case raise_for_status r of
            Inl e \<Rightarrow> (Inl e, s')
          | Inr _ \<Rightarrow>
              (case body r of
                 None \<Rightarrow> (Inl JSONDecodeError, s')
               | Some j \<Rightarrow>
                   (case DataFrame j of
                      Inl e \<Rightarrow> (Inl e, s')
                    | Inr df \<Rightarrow> (Inr (drop_duplicated df), s')))))"

text \<open>\<open>@lru_cache(maxsize=256)\<close>: a hit returns the stored table and makes the entry the
  most recent; a miss runs the body, stores a returned table (an exception stores
  nothing) and drops the least recently used entry beyond 256.\<close>

definition fetch ::
  "network \<Rightarrow> table_maker \<Rightarrow> string \<Rightarrow> state \<Rightarrow> (error + frame) \<times> state" where
  "fetch net DataFrame url s =
    (case map_of (fetch_cache s) url of
       Some df \<Rightarrow>
         (Inr df, s\<lparr>fetch_cache := (url, df) # filter (\<lambda>p. fst p \<noteq> url) (fetch_cache s)\<rparr>)
     | None \<Rightarrow>
         (case fetch_body net DataFrame url s of
            (Inl e, s') \<Rightarrow> (Inl e, s')
          | (Inr df, s') \<Rightarrow>
              (Inr df, s'\<lparr>fetch_cache := take 256 ((url, df) # fetch_cache s')\<rparr>)))"

section \<open>Subject-table metadata\<close>

definition meta_url :: "string \<Rightarrow> string" where
  "meta_url group_id =
    ''https://api.census.gov/data/'' @ YEAR @ ''/acs/acs5/subject/groups/'' @ group_id @ ''.json''"

text \<open>\<open>{k: v["label"] for k, v in ...}\<close>: the dict is filled in order; storing under a
  key already present replaces its value in place.\<close>

fun labels_comp ::
  "(string \<times> json) list \<Rightarrow> (string, json) alist \<Rightarrow> error + (string, json) alist" where
  "labels_comp [] d = Inr d"
| "labels_comp ((k, v) # kvs) d =
    (case getitem v ''label'' of
       Inl e \<Rightarrow> Inl e
     | Inr l \<Rightarrow> labels_comp kvs (DAList.update k l d))"

text \<open>The body of \<open>get_labels\<close>: \<open>requests.get(meta_url)\<close> passes no timeout and the
  status of the response is not looked at.\<close>

definition get_labels_body ::
  "network \<Rightarrow> string \<Rightarrow> state \<Rightarrow> (error + (string, json) alist) \<times> state" where
  "get_labels_body net group_id s =
    (case http_get net \<lparr>req_url = meta_url group_id, req_timeout = None\<rparr> s of
       (Inl e, s') \<Rightarrow> (Inl e, s')
     | (Inr r, s') \<Rightarrow>
         (case body r of
            None \<Rightarrow> (Inl JSONDecodeError, s')
          | Some j \<Rightarrow>
              (case getitem j ''variables'' of
                 Inl e \<Rightarrow> (Inl e, s')
               | Inr variables \<Rightarrow>
                   (case items variables of
                      Inl e \<Rightarrow> (Inl e, s')
                    | Inr kvs \<Rightarrow> (labels_comp kvs DAList.empty, s')))))"

text \<open>\<open>@cache\<close>: an unbounded memo table; only a returned value is stored.\<close>

definition get_labels ::
  "network \<Rightarrow> string \<Rightarrow> state \<Rightarrow> (error + (string, json) alist) \<times> state" where
  "get_labels net group_id s =
    (case map_of (labels_cache s) group_id of
       Some labels \<Rightarrow> (Inr labels, s)
     | None \<Rightarrow>
         (case get_labels_body net group_id s of
            (Inl e, s') \<Rightarrow> (Inl e, s')
          | (Inr labels, s') \<Rightarrow>
              (Inr labels, s'\<lparr>labels_cache := (group_id, labels) # labels_cache s'\<rparr>)))"

section \<open>Variable selection\<close>

text \<open>\<open>needle in lab\<close> at a place where it cannot raise (the loop has evaluated
  \<open>measure_fragment not in lab\<close> before).\<close>

definition contains :: "string \<Rightarrow> json \<Rightarrow> bool" where
  "contains needle lab = (py_in needle lab = Inr True)"

text \<open>The three \<open>if\<close> statements that set \<open>keep\<close>.\<close>

definition keep_var :: "bool \<Rightarrow> bool \<Rightarrow> bool \<Rightarrow> json \<Rightarrow> bool" where
  "keep_var want_age want_sex want_race lab =
    (let keep = False;
         keep = (if want_age \<and> contains ''!!AGE!!'' lab then True else keep);
         keep = (if \<not> keep \<and> want_sex \<and> contains ''!!SEX!!'' lab then True else keep);
         keep = (if \<not> keep \<and> want_race \<and>
                    (contains ''!!RACE'' lab \<or> contains ''!!ETHNICITY'' lab)
                 then True else keep)
     in keep)"

text \<open>The \<open>for var, lab in labels.items()\<close> loop, \<open>out\<close> being the list built so far.\<close>

fun select_loop ::
  "string \<Rightarrow> bool \<Rightarrow> bool \<Rightarrow> bool \<Rightarrow> (string \<times> json) list \<Rightarrow> string list
    \<Rightarrow> error + string list" where
  "select_loop frag want_age want_sex want_race [] out = Inr out"
| "select_loop frag want_age want_sex want_race ((var, lab) # rest) out =
    (if \<not> endswith var ''E'' then select_loop frag want_age want_sex want_race rest out
     else
       (case py_in frag lab of
          Inl e \<Rightarrow> Inl e
        | Inr found \<Rightarrow>
            if \<not> found then select_loop frag want_age want_sex want_race rest out
            else if keep_var want_age want_sex want_race lab
              then select_loop frag want_age want_sex want_race rest (out @ [var])
              else select_loop frag want_age want_sex want_race rest out))"

definition select_vars ::
  "network \<Rightarrow> string \<Rightarrow> string \<Rightarrow> bool \<Rightarrow> bool \<Rightarrow> bool \<Rightarrow> state
    \<Rightarrow> (error + string list) \<times> state" where
  "select_vars net group_id measure_fragment want_age want_sex want_race s =
    (case get_labels net group_id s of
       (Inl e, s') \<Rightarrow> (Inl e, s')
     | (Inr labels, s') \<Rightarrow>
         (case select_loop measure_fragment want_age want_sex want_race
                 (DAList.impl_of labels) [] of
            Inl e \<Rightarrow> (Inl e, s')
          | Inr out \<Rightarrow> (Inr (if out \<noteq> [] then out else [group_id @ ''_001E'']), s')))"

section \<open>The two pulls\<close>

definition detailed_url :: "string list \<Rightarrow> string \<Rightarrow> string" where
  "detailed_url vars_wanted geo =
    ''https://api.census.gov/data/'' @ YEAR @ ''/acs/acs5/subject''
      @ ''?get=NAME,'' @ join '','' vars_wanted @ ''&'' @ geo @ ''&key='' @ API_KEY"

definition simple_url :: "string \<Rightarrow> string \<Rightarrow> string \<Rightarrow> string" where
  "simple_url code dataset geo =
    (let base = ''https://api.census.gov/data/'' @ YEAR @ ''/acs/acs5/'' @ dataset
     in base @ ''?get=NAME,'' @ code @ ''&'' @ geo @ ''&key='' @ API_KEY)"

text \<open>The two dict comprehensions that build \<open>rename\<close> in \<open>pull_detailed\<close>. The
  argument \<open>column_label indicator label\<close> stands for the string
  \<open>f"{indicator.split('(')[0].strip()} \<emdash> {re.sub(r"Estimate!!|\w+!!", "", label).strip()}"\<close>
  (with an en dash): it depends on Unicode character classes, raises nothing on a
  \<open>str\<close>, and no property below depends on it. \<open>labels[v]\<close> raises \<open>KeyError\<close> for a
  code the metadata does not hold, and \<open>re.sub\<close> raises \<open>TypeError\<close> on a label that is
  not a \<open>str\<close>.\<close>

fun rename_comp ::
  "(string \<Rightarrow> string \<Rightarrow> string) \<Rightarrow> string \<Rightarrow> (string, json) alist \<Rightarrow> string list
    \<Rightarrow> error + (string \<times> string) list" where
  "rename_comp column_label indicator labels [] = Inr []"
| "rename_comp column_label indicator labels (v # vs) =
    (case DAList.lookup labels v of
       None \<Rightarrow> Inl (KeyError v)
     | Some (JStr label) \<Rightarrow>
         (case rename_comp column_label indicator labels vs of
            Inl e \<Rightarrow> Inl e
          | Inr rename \<Rightarrow> Inr ((v, column_label indicator label) # rename))
     | Some _ \<Rightarrow> Inl TypeError)"

definition pull_detailed ::
  "network \<Rightarrow> table_maker \<Rightarrow> (string \<Rightarrow> string \<Rightarrow> string) \<Rightarrow> string \<Rightarrow> string
    \<Rightarrow> bool \<Rightarrow> bool \<Rightarrow> bool \<Rightarrow> state \<Rightarrow> (error + frame) \<times> state" where
  "pull_detailed net DataFrame column_label indicator geo want_age want_sex want_race s0 =
    (let s = s0\<lparr>pulls := pulls s0 @ [Detailed indicator]\<rparr>
     in case map_of DETAILED indicator of
       None \<Rightarrow> (Inl (KeyError indicator), s)
     | Some (group_id, frag, _) \<Rightarrow>
         (case select_vars net group_id frag want_age want_sex want_race s of
            (Inl e, s1) \<Rightarrow> (Inl e, s1)
          | (Inr vars_wanted, s1) \<Rightarrow>
              (let url = detailed_url vars_wanted geo;
                   s2 = s1\<lparr>URL_HITS := URL_HITS s1 @ [url]\<rparr>
               in case fetch net DataFrame url s2 of
                    (Inl e, s3) \<Rightarrow> (Inl e, s3)
                  | (Inr df, s3) \<Rightarrow>
                      (case get_labels net group_id s3 of
                         (Inl e, s4) \<Rightarrow> (Inl e, s4)
                       | (Inr labels, s4) \<Rightarrow>
                           (case rename_comp column_label indicator labels vars_wanted of
                              Inl e \<Rightarrow> (Inl e, s4)
                            | Inr rename \<Rightarrow> (Inr (rename_columns rename df), s4))))))"

definition pull_simple ::
  "network \<Rightarrow> table_maker \<Rightarrow> string \<Rightarrow> string \<Rightarrow> string \<Rightarrow> state
    \<Rightarrow> (error + frame) \<times> state" where
  "pull_simple net DataFrame code dataset geo s0 =
    (let s = s0\<lparr>pulls := pulls s0 @ [Simple code dataset]\<rparr>;
         url = simple_url code dataset geo
     in fetch net DataFrame url (s\<lparr>URL_HITS := URL_HITS s @ [url]\<rparr>))"

section \<open>The Run button\<close>

text \<open>What the sidebar widgets hold when Run is pressed: the select box, the text input
  (\<open>None\<close> when it was never drawn), the multiselect, and the three check boxes
  \<open>want_age\<close>, \<open>want_sex\<close>, \<open>want_race\<close>.\<close>

record widgets =
  w_geo_level :: string
  w_zcta_list :: "string option"
  w_chosen :: "string list"
  w_age :: bool
  w_sex :: bool
  w_race :: bool

text \<open>The branch the loop takes for one indicator: the call it makes, or the
  \<open>KeyError\<close> of \<open>BASE_VARS[ind]\<close>.\<close>

definition dispatch :: "string \<Rightarrow> bool \<Rightarrow> bool \<Rightarrow> bool \<Rightarrow> error + pull" where
  "dispatch ind want_age want_sex want_race =
    (if ind \<in> set (map fst DETAILED) \<and> (want_age \<or> want_sex \<or> want_race) then
       Inr (Detailed ind)
     else
       (case map_of BASE_VARS ind of
          None \<Rightarrow> Inl (KeyError ind)
        | Some (code, ds) \<Rightarrow> Inr (Simple code ds)))"

definition pull_indicator ::
  "network \<Rightarrow> table_maker \<Rightarrow> (string \<Rightarrow> string \<Rightarrow> string) \<Rightarrow> string \<Rightarrow> bool \<Rightarrow> bool
    \<Rightarrow> bool \<Rightarrow> string \<Rightarrow> state \<Rightarrow> (error + frame) \<times> state" where
  "pull_indicator net DataFrame column_label geo want_age want_sex want_race ind s =
    (case dispatch ind want_age want_sex want_race of
       Inl e \<Rightarrow> (Inl e, s)
     | Inr (Detailed i) \<Rightarrow>
         pull_detailed net DataFrame column_label i geo want_age want_sex want_race s
     | Inr (Simple code ds) \<Rightarrow> pull_simple net DataFrame code ds geo s)"

text \<open>The \<open>for ind in chosen\<close> loop; an exception ends it.\<close>

fun pull_loop ::
  "network \<Rightarrow> table_maker \<Rightarrow> (string \<Rightarrow> string \<Rightarrow> string) \<Rightarrow> string \<Rightarrow> bool \<Rightarrow> bool
    \<Rightarrow> bool \<Rightarrow> string list \<Rightarrow> frame list \<Rightarrow> state \<Rightarrow> (error + frame list) \<times> state" where
  "pull_loop net DataFrame column_label geo want_age want_sex want_race [] frames s =
    (Inr frames, s)"
| "pull_loop net DataFrame column_label geo want_age want_sex want_race (ind # rest) frames s =
    (case pull_indicator net DataFrame column_label geo want_age want_sex want_race ind s of
       (Inl e, s') \<Rightarrow> (Inl e, s')
     | (Inr df, s') \<Rightarrow>
         pull_loop net DataFrame column_label geo want_age want_sex want_race rest
           (frames @ [df]) s')"

text \<open>\<open>pd.concat(frames, axis=1).loc[:, ~pd.concat(frames, axis=1).columns.duplicated()]\<close>.\<close>

definition assemble :: "frame list \<Rightarrow> error + frame" where
  "assemble frames =
    (case concat_axis1 frames of
       Inl e \<Rightarrow> Inl e
     | Inr wide \<Rightarrow> Inr (drop_duplicated wide))"

text \<open>The dict \<open>rename_base\<close>.\<close>

definition rename_base :: "frame \<Rightarrow> (string \<times> string) list" where
  "rename_base df =
    map (\<lambda>(lab, code, _). (code, lab @ '' ('' @ code @ '')''))
      (filter (\<lambda>(lab, code, _). code \<in> set (map fst (columns df))) BASE_VARS)"

text \<open>How a press of Run ends: \<open>st.error\<close> and \<open>st.stop()\<close>, an exception that nothing
  catches, or the table handed to \<open>st.dataframe\<close>. A press executes the script from the
  top (\<open>reload\<close>) and then the body of \<open>if st.sidebar.button("Run")\<close>.\<close>

datatype outcome = Stopped string | Raised error | Shown frame

definition run ::
  "network \<Rightarrow> table_maker \<Rightarrow> (string \<Rightarrow> string \<Rightarrow> string) \<Rightarrow> widgets \<Rightarrow> state
    \<Rightarrow> outcome \<times> state" where
  "run net DataFrame column_label w s0 =
    (let s = (reload s0)\<lparr>URL_HITS := []\<rparr>
     in case geo_clause (w_geo_level w) (w_zcta_list w) of
          None \<Rightarrow> (Stopped ''Enter at least one ZCTA.'', s)
        | Some geo \<Rightarrow>
            if geo = [] then (Stopped ''Enter at least one ZCTA.'', s)
            else
              (case pull_loop net DataFrame column_label geo (w_age w) (w_sex w) (w_race w)
                      (w_chosen w) [] s of
                 (Inl e, s') \<Rightarrow> (Raised e, s')
               | (Inr frames, s') \<Rightarrow>
                   (case assemble frames of
                      Inl e \<Rightarrow> (Raised e, s')
                    | Inr df \<Rightarrow> (Shown (rename_columns (rename_base df) df), s'))))"

section \<open>Notions used to state the properties\<close>

text \<open>The three filters of the loop in \<open>select_vars\<close>, as one test on an item of
  \<open>labels.items()\<close>: the code ends in \<open>E\<close>, the label holds the fragment, and a requested
  axis marker is found.\<close>

definition survives :: "string \<Rightarrow> bool \<Rightarrow> bool \<Rightarrow> bool \<Rightarrow> string \<times> json \<Rightarrow> bool" where
  "survives frag want_age want_sex want_race item =
    (endswith (fst item) ''E'' \<and> contains frag (snd item)
      \<and> keep_var want_age want_sex want_race (snd item))"

subsection \<open>Concrete inputs\<close>

text \<open>A metadata body in the shape the API documents, with an overall row, an age row and
  a margin-of-error column; the dict \<open>get_labels\<close> builds from it; a one-row data table;
  a network that serves both; and a network that is down.\<close>

definition demo_meta :: json where
  "demo_meta = JObj [(''variables'', JObj
     [(''S1810_C02_001E'', JObj [(''label'', JStr ''Estimate!!With a disability!!Total'')]),
      (''S1810_C02_002E'',
         JObj [(''label'', JStr ''Estimate!!With a disability!!Total!!AGE!!Under 5 years'')]),
      (''S1810_C02_002M'',
         JObj [(''label'', JStr ''Margin of Error!!With a disability!!Total!!AGE!!Under 5 years'')])])]"

definition demo_labels :: "(string, json) alist" where
  "demo_labels =
     DAList.update ''S1810_C02_002M''
         (JStr ''Margin of Error!!With a disability!!Total!!AGE!!Under 5 years'')
       (DAList.update ''S1810_C02_002E''
           (JStr ''Estimate!!With a disability!!Total!!AGE!!Under 5 years'')
         (DAList.update ''S1810_C02_001E'' (JStr ''Estimate!!With a disability!!Total'')
            DAList.empty))"

definition demo_table :: json where
  "demo_table = JArr
     [JArr [JStr ''NAME'', JStr ''S1810_C02_002E'', JStr ''state'', JStr ''county''],
      JArr [JStr ''Pierce County, Washington'', JStr ''0.7'', JStr ''53'', JStr ''053'']]"

fun is_JArr :: "json \<Rightarrow> bool" where
  "is_JArr (JArr xs) = True"
| "is_JArr _ = False"

fun the_str :: "json \<Rightarrow> string" where
  "the_str (JStr s) = s"
| "the_str _ = []"

fun the_arr :: "json \<Rightarrow> json list" where
  "the_arr (JArr xs) = xs"
| "the_arr _ = []"

text \<open>A table maker for the examples. On a body in the API's shape (a list of lists, the
  first a list of strings, all of one length) it gives the table
  \<open>pd.DataFrame(j[1:], columns=j[0])\<close> is: the first list as header, the others as rows. It
  is applied to such bodies only; to any other it answers \<open>ValueError\<close>, which is not
  meant to say what pandas does there.\<close>

definition rect_frame :: table_maker where
  "rect_frame j =
    (case j of
       JArr (JArr names # data) \<Rightarrow>
         if list_all is_JStr names
            \<and> list_all (\<lambda>r. is_JArr r \<and> length (the_arr r) = length names) data
         then Inr \<lparr>index_len = length data,
                   columns = map (\<lambda>(i, n). (the_str n, map (\<lambda>r. Val (the_arr r ! i)) data))
                               (enumerate 0 names)\<rparr>
         else Inl ValueError
     | _ \<Rightarrow> Inl ValueError)"

definition demo_net :: network where
  "demo_net hist req =
    (if req_url req = meta_url ''S1810'' then Inr \<lparr>status_code = 200, body = Some demo_meta\<rparr>
     else Inr \<lparr>status_code = 200, body = Some demo_table\<rparr>)"

definition down_net :: network where
  "down_net hist req = Inl RequestException"

text \<open>A network whose metadata body gives an estimate code the label \<open>null\<close>.\<close>

definition null_label_net :: network where
  "null_label_net hist req =
    Inr \<lparr>status_code = 200,
         body = Some (JObj [(''variables'',
                  JObj [(''S1810_C02_001E'', JObj [(''label'', JNull)])])])\<rparr>"

text \<open>The characters of Python's \<open>string.whitespace\<close>.\<close>

definition is_whitespace :: "char \<Rightarrow> bool" where
  "is_whitespace c = (c \<in> set [CHR '' '', CHR 0x09, CHR 0x0A, CHR 0x0B, CHR 0x0C, CHR 0x0D])"

text \<open>The widgets with the ZCTA level, a given text in the ZCTA box, one indicator chosen
  and no breakdown.\<close>

definition zcta_widgets :: "string \<Rightarrow> widgets" where
  "zcta_widgets z = \<lparr>w_geo_level = ''ZCTA (custom list)'', w_zcta_list = Some z,
      w_chosen = [''HS diploma 25+ (%)''], w_age = False, w_sex = False, w_race = False\<rparr>"

text \<open>The request \<open>get_labels\<close> sends for a group, and the request \<open>fetch\<close> sends for
  a URL.\<close>

definition meta_request :: "string \<Rightarrow> request" where
  "meta_request group_id = \<lparr>req_url = meta_url group_id, req_timeout = None\<rparr>"

definition data_request :: "string \<Rightarrow> request" where
  "data_request url = \<lparr>req_url = url, req_timeout = Some 20\<rparr>"

text \<open>The URLs of the requests of a history that \<open>fetch\<close> sent (those with the timeout of
  20), in order.\<close>

definition data_urls :: "request list \<Rightarrow> string list" where
  "data_urls reqs = map req_url (filter (\<lambda>r. req_timeout r = Some 20) reqs)"

text \<open>How the state moves from \<open>s\<close> to \<open>s'\<close> within one execution of the script: the
  metadata cache keeps every entry, the request history and the log only gain entries at
  the end, and every request gained is a data request of \<open>fetch\<close> or a metadata request
  of \<open>get_labels\<close>.\<close>

definition grows :: "state \<Rightarrow> state \<Rightarrow> bool" where
  "grows s s' =
    (map_of (labels_cache s) \<subseteq>\<^sub>m map_of (labels_cache s')
     \<and> (\<exists>new log. issued s' = issued s @ new \<and> URL_HITS s' = URL_HITS s @ log
            \<and> (\<forall>r \<in> set new. r = data_request (req_url r) \<or> (\<exists>g. r = meta_request g))))"

text \<open>Within one execution of the script, counted from the request history of length \<open>n\<close>
  it started with: the URLs of the data requests sent since are the URLs of the log, each
  at its first place.\<close>

definition tracked :: "nat \<Rightarrow> state \<Rightarrow> bool" where
  "tracked n s =
    (n \<le> length (issued s)
     \<and> data_urls (drop n (issued s)) = rev (remdups (rev (URL_HITS s))))"

text \<open>The response cache holds exactly the logged URLs, and no more entries than the log.\<close>

definition cache_matches_log :: "state \<Rightarrow> bool" where
  "cache_matches_log s =
    (set (map fst (fetch_cache s)) = set (URL_HITS s)
     \<and> length (fetch_cache s) \<le> length (URL_HITS s))"

text \<open>The call the loop of the run is to make for an indicator of \<open>BASE_VARS\<close>.\<close>

abbreviation expected_pull :: "bool \<Rightarrow> bool \<Rightarrow> bool \<Rightarrow> string \<Rightarrow> pull" where
  "expected_pull want_age want_sex want_race ind \<equiv>
    (if ind \<in> set (map fst DETAILED) \<and> (want_age \<or> want_sex \<or> want_race) then Detailed ind
     else Simple (fst (the (map_of BASE_VARS ind))) (snd (the (map_of BASE_VARS ind))))"

text \<open>A network whose metadata endpoint answers with status 500 and a well-formed body;
  the widgets for the county level with two indicators and no breakdown; and those with
  "Disability (%)" broken down by age.\<close>

definition flaky_net :: network where
  "flaky_net hist req =
    (if req_url req = meta_url ''S1810'' then Inr \<lparr>status_code = 500, body = Some demo_meta\<rparr>
     else Inr \<lparr>status_code = 200, body = Some demo_table\<rparr>)"

text \<open>A network whose metadata for S1810 lists the code of "Median household income ($)"
  with a disability label by age, and the widgets that pull that indicator and
  "Disability (%)" by age: the two pulls then ask for the same URL.\<close>

definition clash_net :: network where
  "clash_net hist req =
    (if req_url req = meta_url ''S1810'' then
       Inr \<lparr>status_code = 200,
            body = Some (JObj [(''variables'', JObj
              [(''S1901_C01_012E'',
                JObj [(''label'', JStr ''Estimate!!With a disability!!AGE!!Under 5 years'')])])])\<rparr>
     else
       Inr \<lparr>status_code = 200,
            body = Some (JArr
              [JArr [JStr ''NAME'', JStr ''S1901_C01_012E'', JStr ''state'', JStr ''county''],
               JArr [JStr ''Pierce County, Washington'', JStr ''91486'', JStr ''53'',
                     JStr ''053'']])\<rparr>)"

definition clash_widgets :: widgets where
  "clash_widgets = \<lparr>w_geo_level = ''County (Pierce)'', w_zcta_list = None,
      w_chosen = [''Median household income ($)'', ''Disability (%)''],
      w_age = True, w_sex = False, w_race = False\<rparr>"

definition plain_widgets :: widgets where
  "plain_widgets = \<lparr>w_geo_level = ''County (Pierce)'', w_zcta_list = None,
      w_chosen = [''Disability (%)'', ''HS diploma 25+ (%)''],
      w_age = False, w_sex = False, w_race = False\<rparr>"

definition age_widgets :: widgets where
  "age_widgets = \<lparr>w_geo_level = ''County (Pierce)'', w_zcta_list = None,
      w_chosen = [''Disability (%)''], w_age = True, w_sex = False, w_race = False\<rparr>"

text \<open>Columns with the later occurrences of a name removed, \<open>seen\<close> holding the names met
  so far: what \<open>df.loc[:, ~df.columns.duplicated()]\<close> keeps (\<open>drop_duplicated_columns\<close>).\<close>

fun keep_first :: "string list \<Rightarrow> (string \<times> 'a) list \<Rightarrow> (string \<times> 'a) list" where
  "keep_first seen [] = []"
| "keep_first seen ((c, x) # cols) =
    (if c \<in> set seen then keep_first seen cols else (c, x) # keep_first (c # seen) cols)"

text \<open>Two per-indicator tables over the same two tracts, the second listing them in the
  other order.\<close>

definition table_a :: frame where
  "table_a = \<lparr>index_len = 2,
     columns = [(''NAME'', [Val (JStr ''Tract 1''), Val (JStr ''Tract 2'')]),
                (''DP02_0062PE'', [Val (JStr ''91.2''), Val (JStr ''88.0'')])]\<rparr>"

definition table_b :: frame where
  "table_b = \<lparr>index_len = 2,
     columns = [(''NAME'', [Val (JStr ''Tract 2''), Val (JStr ''Tract 1'')]),
                (''S1901_C01_012E'', [Val (JStr ''70000''), Val (JStr ''65000'')])]\<rparr>"

text \<open>A table over the first tract only.\<close>

definition table_c :: frame where
  "table_c = \<lparr>index_len = 1,
     columns = [(''NAME'', [Val (JStr ''Tract 1'')]),
                (''S2301_C04_001E'', [Val (JStr ''4.1'')])]\<rparr>"

section \<open>Properties\<close>

lemma str_in_sublist: "str_in needle hay = sublist needle hay"
  by (induction hay) (simp_all add: sublist_Cons_right)

text \<open>
  Claim C10. At the levels "County (Pierce)" and "Tract (Pierce)" \<open>geo_clause\<close> returns a
  fixed clause: the same for any two values of the ZCTA input in the session state, and
  never \<open>None\<close>.
\<close>

theorem C10_pierce_levels_ignore_zcta:
  "geo_clause ''County (Pierce)'' z = Some ''for=county:053&in=state:53''
   \<and> geo_clause ''County (Pierce)'' z = geo_clause ''County (Pierce)'' z'
   \<and> geo_clause ''County (Pierce)'' z \<noteq> None
   \<and> geo_clause ''Tract (Pierce)'' z = Some ''for=tract:*&in=state:53%20county:053''
   \<and> geo_clause ''Tract (Pierce)'' z = geo_clause ''Tract (Pierce)'' z'
   \<and> geo_clause ''Tract (Pierce)'' z \<noteq> None"
  by (simp add: geo_clause_def PIERCE_def STATE_def)

lemma endswith_E: "endswith s ''E'' = (s \<noteq> [] \<and> last s = CHR ''E'')"
proof (cases s rule: rev_cases)
  case Nil
  then show ?thesis by (simp add: endswith_def)
next
  case (snoc ys y)
  then show ?thesis by (auto simp add: endswith_def suffix_def)
qed

lemma contains_JStr: "contains needle (JStr l) = sublist needle l"
  by (simp add: contains_def str_in_sublist)

lemma keep_var_iff:
  "keep_var a sx r lab =
    (a \<and> contains ''!!AGE!!'' lab \<or> sx \<and> contains ''!!SEX!!'' lab
      \<or> r \<and> (contains ''!!RACE'' lab \<or> contains ''!!ETHNICITY'' lab))"
  by (auto simp: keep_var_def Let_def)

lemma keep_var_no_flags: "keep_var False False False lab = False"
  by (simp add: keep_var_iff)

lemma select_loop_result:
  "select_loop frag a sx r kvs out = Inr res
    \<Longrightarrow> res = out @ map fst (filter (survives frag a sx r) kvs)"
proof (induction kvs arbitrary: out)
  case Nil
  then show ?case by simp
next
  case (Cons kv kvs)
  obtain var lab where kv: "kv = (var, lab)" by (cases kv)
  show ?case
  proof (cases "endswith var ''E''")
    case False
    with Cons kv show ?thesis by (simp add: survives_def)
  next
    case True
    show ?thesis
    proof (cases "py_in frag lab")
      case (Inl e)
      with Cons.prems kv True show ?thesis by simp
    next
      case (Inr found)
      with Cons.prems kv True show ?thesis
        by (cases found; cases "keep_var a sx r lab")
           (auto simp add: survives_def contains_def dest!: Cons.IH)
    qed
  qed
qed

lemma py_in_JStr_total: "is_JStr lab \<Longrightarrow> \<exists>b. py_in frag lab = Inr b"
  by (cases lab) simp_all

lemma select_loop_total:
  "list_all (\<lambda>kv. is_JStr (snd kv)) kvs \<Longrightarrow> \<exists>res. select_loop frag a sx r kvs out = Inr res"
proof (induction kvs arbitrary: out)
  case Nil
  then show ?case by simp
next
  case (Cons kv kvs)
  obtain var lab where kv: "kv = (var, lab)" by (cases kv)
  from Cons.prems kv obtain b where b: "py_in frag lab = Inr b"
    using py_in_JStr_total by fastforce
  from Cons.prems have rest: "list_all (\<lambda>kv. is_JStr (snd kv)) kvs" by simp
  show ?case using Cons.IH[OF rest] kv b by simp
qed

lemma select_loop_strings:
  assumes "list_all (\<lambda>kv. is_JStr (snd kv)) kvs"
  shows "select_loop frag a sx r kvs out = Inr (out @ map fst (filter (survives frag a sx r) kvs))"
  using select_loop_total[OF assms] select_loop_result by metis

lemma survives_no_flags: "filter (survives frag False False False) kvs = []"
  by (simp add: survives_def keep_var_no_flags)

lemma select_vars_nonempty:
  "fst (select_vars net g frag a sx r s) \<noteq> Inr []"
  by (auto simp: select_vars_def split: prod.splits sum.splits)

text \<open>
  Claim C1 (as amended). Whenever \<open>get_labels(group_id)\<close> returns a mapping whose labels are
  strings, and no breakdown flag is set or no item of the mapping survives the three
  filters, \<open>select_vars\<close> returns exactly the list \<open>[group_id + "_001E"]\<close>. Whatever the
  network does, \<open>select_vars\<close> never returns the empty list.
\<close>

theorem C1_select_vars_fallback:
  "(get_labels net group_id s = (Inr labels, s')
      \<and> list_all (\<lambda>kv. is_JStr (snd kv)) (DAList.impl_of labels)
      \<and> (\<not> (want_age \<or> want_sex \<or> want_race)
          \<or> filter (survives frag want_age want_sex want_race) (DAList.impl_of labels) = [])
     \<longrightarrow> select_vars net group_id frag want_age want_sex want_race s
          = (Inr [group_id @ ''_001E''], s'))
   \<and> fst (select_vars net group_id frag want_age want_sex want_race s) \<noteq> Inr []"
proof (intro conjI impI)
  assume h: "get_labels net group_id s = (Inr labels, s')
      \<and> list_all (\<lambda>kv. is_JStr (snd kv)) (DAList.impl_of labels)
      \<and> (\<not> (want_age \<or> want_sex \<or> want_race)
          \<or> filter (survives frag want_age want_sex want_race) (DAList.impl_of labels) = [])"
  then have none: "filter (survives frag want_age want_sex want_race) (DAList.impl_of labels) = []"
    using survives_no_flags by auto
  from h have "select_loop frag want_age want_sex want_race (DAList.impl_of labels) [] = Inr []"
    using select_loop_strings[of "DAList.impl_of labels" frag want_age want_sex want_race "[]"] none
    by simp
  with h show "select_vars net group_id frag want_age want_sex want_race s
          = (Inr [group_id @ ''_001E''], s')"
    by (simp add: select_vars_def)
next
  show "fst (select_vars net group_id frag want_age want_sex want_race s) \<noteq> Inr []"
    by (rule select_vars_nonempty)
qed

lemma demo_get_labels:
  "get_labels demo_net ''S1810'' init_state =
    (Inr demo_labels,
     init_state\<lparr>issued := [\<lparr>req_url = meta_url ''S1810'', req_timeout = None\<rparr>],
                 labels_cache := [(''S1810'', demo_labels)]\<rparr>)"
  by (simp add: get_labels_def get_labels_body_def http_get_def demo_net_def init_state_def
      demo_meta_def demo_labels_def)

lemma demo_labels_items:
  "DAList.impl_of demo_labels =
    [(''S1810_C02_001E'', JStr ''Estimate!!With a disability!!Total''),
     (''S1810_C02_002E'', JStr ''Estimate!!With a disability!!Total!!AGE!!Under 5 years''),
     (''S1810_C02_002M'', JStr ''Margin of Error!!With a disability!!Total!!AGE!!Under 5 years'')]"
  by (simp add: demo_labels_def DAList.update.rep_eq DAList.empty.rep_eq)

text \<open>The theorem at the demo network, with no flag set.\<close>

theorem C1_witness:
  "select_vars demo_net ''S1810'' ''With a disability'' False False False init_state
     = (Inr [''S1810_001E''],
        init_state\<lparr>issued := [\<lparr>req_url = meta_url ''S1810'', req_timeout = None\<rparr>],
                    labels_cache := [(''S1810'', demo_labels)]\<rparr>)
   \<and> fst (select_vars demo_net ''S1810'' ''With a disability'' False False False init_state)
       \<noteq> Inr []"
  using C1_select_vars_fallback [of demo_net "''S1810''" init_state demo_labels
      "init_state\<lparr>issued := [\<lparr>req_url = meta_url ''S1810'', req_timeout = None\<rparr>],
                   labels_cache := [(''S1810'', demo_labels)]\<rparr>"
      False False False "''With a disability''"]
  by (simp add: demo_get_labels demo_labels_items)

lemma null_label_select:
  "fst (select_vars null_label_net ''S1810'' ''With a disability'' False False False init_state)
     = Inl TypeError"
  by (simp add: select_vars_def get_labels_def get_labels_body_def http_get_def
      null_label_net_def init_state_def DAList.update.rep_eq DAList.empty.rep_eq endswith_E)

text \<open>The claim as first stated fails where \<open>select_vars\<close> does not return: with no flag
  set it still calls \<open>get_labels\<close>, whose exception leaves \<open>select_vars\<close> when the metadata
  cannot be fetched; and \<open>measure_fragment not in lab\<close> raises on a label that is \<open>null\<close>.\<close>

theorem C1_counterexample:
  "fst (select_vars down_net ''S1810'' ''With a disability'' False False False init_state)
     = Inl RequestException
   \<and> fst (select_vars down_net ''S1810'' ''With a disability'' False False False init_state)
     \<noteq> Inr [''S1810_001E'']
   \<and> fst (select_vars null_label_net ''S1810'' ''With a disability'' False False False
            init_state) = Inl TypeError"
  using null_label_select
  by (simp add: select_vars_def get_labels_def get_labels_body_def http_get_def down_net_def
      init_state_def)

lemma demo_select_age:
  "select_vars demo_net ''S1810'' ''With a disability'' True False False init_state
     = (Inr [''S1810_C02_002E''],
        init_state\<lparr>issued := [\<lparr>req_url = meta_url ''S1810'', req_timeout = None\<rparr>],
                    labels_cache := [(''S1810'', demo_labels)]\<rparr>)"
  by (simp add: select_vars_def demo_get_labels demo_labels_items endswith_E keep_var_iff
      contains_def)


text \<open>
  Claim C2 (as amended). Let \<open>get_labels(group_id)\<close> return the metadata, and let \<open>M\<close> be the
  codes of its items, in the order of the metadata, that end in \<open>E\<close> and whose label holds
  the measure fragment and the marker of a requested axis (\<open>!!AGE!!\<close> if \<open>want_age\<close>,
  \<open>!!SEX!!\<close> if \<open>want_sex\<close>, \<open>!!RACE\<close> or \<open>!!ETHNICITY\<close> if \<open>want_race\<close>). Then whatever
  \<open>select_vars\<close> returns is exactly \<open>M\<close> when \<open>M\<close> is not empty, and the single fallback code
  \<open>group_id + "_001E"\<close> when it is; it does return when the labels are strings. No code
  stands twice in \<open>M\<close>, and every code of \<open>M\<close> is a key of the metadata with such a label.
  \<open>contains\<close> is Python's \<open>in\<close>: on a label that is a string it is the substring test
  (\<open>contains_JStr\<close>).
\<close>

theorem C2_selected_vars_match:
  "get_labels net g s = (Inr labels, s')
   \<and> M = map fst (filter (\<lambda>kv. endswith (fst kv) ''E'' \<and> contains frag (snd kv)
                 \<and> (a \<and> contains ''!!AGE!!'' (snd kv) \<or> sx \<and> contains ''!!SEX!!'' (snd kv)
                      \<or> r \<and> (contains ''!!RACE'' (snd kv) \<or> contains ''!!ETHNICITY'' (snd kv))))
               (DAList.impl_of labels))
   \<longrightarrow> (\<forall>vs s''. select_vars net g frag a sx r s = (Inr vs, s'')
           \<longrightarrow> vs = (if M = [] then [g @ ''_001E''] else M) \<and> s'' = s')
     \<and> (list_all (\<lambda>kv. is_JStr (snd kv)) (DAList.impl_of labels)
           \<longrightarrow> select_vars net g frag a sx r s
               = (Inr (if M = [] then [g @ ''_001E''] else M), s'))
     \<and> distinct M
     \<and> (\<forall>v \<in> set M. endswith v ''E''
           \<and> (\<exists>lab. DAList.lookup labels v = Some lab \<and> contains frag lab
                \<and> (a \<and> contains ''!!AGE!!'' lab \<or> sx \<and> contains ''!!SEX!!'' lab
                    \<or> r \<and> (contains ''!!RACE'' lab \<or> contains ''!!ETHNICITY'' lab))))"
proof (intro impI, elim conjE)
  assume gl: "get_labels net g s = (Inr labels, s')"
    and M: "M = map fst (filter (\<lambda>kv. endswith (fst kv) ''E'' \<and> contains frag (snd kv)
                 \<and> (a \<and> contains ''!!AGE!!'' (snd kv) \<or> sx \<and> contains ''!!SEX!!'' (snd kv)
                      \<or> r \<and> (contains ''!!RACE'' (snd kv) \<or> contains ''!!ETHNICITY'' (snd kv))))
               (DAList.impl_of labels))"
  let ?kvs = "DAList.impl_of labels"
  have "survives frag a sx r
      = (\<lambda>kv. endswith (fst kv) ''E'' \<and> contains frag (snd kv)
                 \<and> (a \<and> contains ''!!AGE!!'' (snd kv) \<or> sx \<and> contains ''!!SEX!!'' (snd kv)
                      \<or> r \<and> (contains ''!!RACE'' (snd kv) \<or> contains ''!!ETHNICITY'' (snd kv))))"
    by (rule ext) (simp add: survives_def keep_var_iff)
  with M have M': "M = map fst (filter (survives frag a sx r) ?kvs)"
    by simp
  have returned: "vs = (if M = [] then [g @ ''_001E''] else M) \<and> s'' = s'"
    if sv: "select_vars net g frag a sx r s = (Inr vs, s'')" for vs s''
  proof -
    from gl sv obtain out where out: "select_loop frag a sx r ?kvs [] = Inr out"
      and vs: "vs = (if out \<noteq> [] then out else [g @ ''_001E''])" and s: "s'' = s'"
      by (auto simp: select_vars_def split: sum.splits)
    from out have "out = M" using select_loop_result M' by fastforce
    with vs s show ?thesis by auto
  qed
  have total: "select_vars net g frag a sx r s
               = (Inr (if M = [] then [g @ ''_001E''] else M), s')"
    if str: "list_all (\<lambda>kv. is_JStr (snd kv)) ?kvs"
  proof -
    have "select_loop frag a sx r ?kvs [] = Inr M"
      using select_loop_strings [OF str, of frag a sx r "[]"] M' by simp
    with gl show ?thesis by (auto simp add: select_vars_def)
  qed
  have d: "distinct M" unfolding M by (simp add: distinct_map_filter)
  have each: "\<forall>v \<in> set M. endswith v ''E''
           \<and> (\<exists>lab. DAList.lookup labels v = Some lab \<and> contains frag lab
                \<and> (a \<and> contains ''!!AGE!!'' lab \<or> sx \<and> contains ''!!SEX!!'' lab
                    \<or> r \<and> (contains ''!!RACE'' lab \<or> contains ''!!ETHNICITY'' lab)))"
  proof
    fix v assume "v \<in> set M"
    then obtain lab where mem: "(v, lab) \<in> set ?kvs" and sur: "survives frag a sx r (v, lab)"
      unfolding M' by auto
    from mem have "DAList.lookup labels v = Some lab"
      by (simp add: DAList.lookup.rep_eq)
    with sur show "endswith v ''E''
           \<and> (\<exists>lab. DAList.lookup labels v = Some lab \<and> contains frag lab
                \<and> (a \<and> contains ''!!AGE!!'' lab \<or> sx \<and> contains ''!!SEX!!'' lab
                    \<or> r \<and> (contains ''!!RACE'' lab \<or> contains ''!!ETHNICITY'' lab)))"
      by (simp add: survives_def keep_var_iff)
  qed
  show "(\<forall>vs s''. select_vars net g frag a sx r s = (Inr vs, s'')
           \<longrightarrow> vs = (if M = [] then [g @ ''_001E''] else M) \<and> s'' = s')
     \<and> (list_all (\<lambda>kv. is_JStr (snd kv)) (DAList.impl_of labels)
           \<longrightarrow> select_vars net g frag a sx r s
               = (Inr (if M = [] then [g @ ''_001E''] else M), s'))
     \<and> distinct M
     \<and> (\<forall>v \<in> set M. endswith v ''E''
           \<and> (\<exists>lab. DAList.lookup labels v = Some lab \<and> contains frag lab
                \<and> (a \<and> contains ''!!AGE!!'' lab \<or> sx \<and> contains ''!!SEX!!'' lab
                    \<or> r \<and> (contains ''!!RACE'' lab \<or> contains ''!!ETHNICITY'' lab))))"
  proof (intro conjI allI impI)
    fix vs s'' assume "select_vars net g frag a sx r s = (Inr vs, s'')"
    then show "vs = (if M = [] then [g @ ''_001E''] else M)" "s'' = s'"
      using returned by blast+
  next
    assume "list_all (\<lambda>kv. is_JStr (snd kv)) (DAList.impl_of labels)"
    then show "select_vars net g frag a sx r s
               = (Inr (if M = [] then [g @ ''_001E''] else M), s')"
      by (rule total)
  next
    show "distinct M" by (rule d)
  next
    show "\<forall>v \<in> set M. endswith v ''E''
           \<and> (\<exists>lab. DAList.lookup labels v = Some lab \<and> contains frag lab
                \<and> (a \<and> contains ''!!AGE!!'' lab \<or> sx \<and> contains ''!!SEX!!'' lab
                    \<or> r \<and> (contains ''!!RACE'' lab \<or> contains ''!!ETHNICITY'' lab)))"
      by (rule each)
  qed
qed

text \<open>The theorem at the demo network with \<open>want_age\<close>: the one age row is the result.\<close>

theorem C2_witness:
  "select_vars demo_net ''S1810'' ''With a disability'' True False False init_state
     = (Inr [''S1810_C02_002E''],
        init_state\<lparr>issued := [\<lparr>req_url = meta_url ''S1810'', req_timeout = None\<rparr>],
                    labels_cache := [(''S1810'', demo_labels)]\<rparr>)
   \<and> endswith ''S1810_C02_002E'' ''E''
   \<and> (\<exists>lab. DAList.lookup demo_labels ''S1810_C02_002E'' = Some lab
          \<and> contains ''With a disability'' lab \<and> contains ''!!AGE!!'' lab)"
proof -
  let ?s' = "init_state\<lparr>issued := [\<lparr>req_url = meta_url ''S1810'', req_timeout = None\<rparr>],
                    labels_cache := [(''S1810'', demo_labels)]\<rparr>"
  have M: "[''S1810_C02_002E'']
      = map fst (filter (\<lambda>kv. endswith (fst kv) ''E'' \<and> contains ''With a disability'' (snd kv)
                 \<and> (True \<and> contains ''!!AGE!!'' (snd kv)
                      \<or> False \<and> contains ''!!SEX!!'' (snd kv)
                      \<or> False \<and> (contains ''!!RACE'' (snd kv)
                                  \<or> contains ''!!ETHNICITY'' (snd kv))))
               (DAList.impl_of demo_labels))"
    by (simp add: demo_labels_items endswith_E contains_def)
  have str: "list_all (\<lambda>kv. is_JStr (snd kv)) (DAList.impl_of demo_labels)"
    by (simp add: demo_labels_items)
  note th = C2_selected_vars_match [where net = demo_net and g = "''S1810''"
      and s = init_state and labels = demo_labels and frag = "''With a disability''"
      and a = True and sx = False and r = False and M = "[''S1810_C02_002E'']"
      and s' = ?s', THEN mp, OF conjI [OF demo_get_labels M]]
  from th [THEN conjunct2, THEN conjunct1, THEN mp, OF str]
  have sel: "select_vars demo_net ''S1810'' ''With a disability'' True False False
      init_state = (Inr [''S1810_C02_002E''], ?s')"
    by simp
  from th [THEN conjunct2, THEN conjunct2, THEN conjunct2]
  have "endswith ''S1810_C02_002E'' ''E''
      \<and> (\<exists>lab. DAList.lookup demo_labels ''S1810_C02_002E'' = Some lab
          \<and> contains ''With a disability'' lab
          \<and> (True \<and> contains ''!!AGE!!'' lab \<or> False \<and> contains ''!!SEX!!'' lab
              \<or> False \<and> (contains ''!!RACE'' lab \<or> contains ''!!ETHNICITY'' lab)))"
    by simp
  with sel show ?thesis by simp
qed

text \<open>The claim as first stated fails where a requested axis matches nothing: with
  \<open>want_sex\<close> the demo metadata has no row to offer, and the code returned is the
  fallback, which the metadata does not even hold.\<close>

theorem C2_counterexample:
  "fst (get_labels demo_net ''S1810'' init_state) = Inr demo_labels
   \<and> fst (select_vars demo_net ''S1810'' ''With a disability'' False True False init_state)
       = Inr [''S1810_001E'']
   \<and> DAList.lookup demo_labels ''S1810_001E'' = None"
  by (simp add: select_vars_def demo_get_labels demo_labels_items endswith_E keep_var_iff
      contains_def DAList.lookup.rep_eq)

lemma replace_spaces_empty: "replace_spaces z = [] \<longleftrightarrow> list_all (\<lambda>c. c = CHR '' '') z"
  by (induction z) (simp_all add: replace_spaces_def)

lemma geo_clause_None_iff:
  "geo_clause level zl = None \<longleftrightarrow>
     level \<noteq> ''County (Pierce)'' \<and> level \<noteq> ''Tract (Pierce)''
     \<and> list_all (\<lambda>c. c = CHR '' '') (case zl of None \<Rightarrow> [] | Some z \<Rightarrow> z)"
  by (simp add: geo_clause_def Let_def replace_spaces_empty)

text \<open>
  Claim C3 (as amended). At a level other than the two Pierce levels, when the ZCTA input
  is absent, empty or made of space characters (U+0020) only, \<open>geo_clause\<close> returns
  \<open>None\<close>, and the run stops with the message "Enter at least one ZCTA.": the state it
  leaves has an empty \<open>URL_HITS\<close> and empty caches (the script was loaded anew), and the
  same request history and pull history as before, so no request was sent and nothing
  was pulled.
\<close>

theorem C3_blank_zcta_stops_run:
  "w_geo_level w \<noteq> ''County (Pierce)'' \<and> w_geo_level w \<noteq> ''Tract (Pierce)''
    \<and> list_all (\<lambda>c. c = CHR '' '') (case w_zcta_list w of None \<Rightarrow> [] | Some z \<Rightarrow> z)
    \<longrightarrow> geo_clause (w_geo_level w) (w_zcta_list w) = None
       \<and> run net DataFrame column_label w s
           = (Stopped ''Enter at least one ZCTA.'',
              s\<lparr>URL_HITS := [], fetch_cache := [], labels_cache := []\<rparr>)"
proof (intro impI)
  assume "w_geo_level w \<noteq> ''County (Pierce)'' \<and> w_geo_level w \<noteq> ''Tract (Pierce)''
    \<and> list_all (\<lambda>c. c = CHR '' '') (case w_zcta_list w of None \<Rightarrow> [] | Some z \<Rightarrow> z)"
  then have none: "geo_clause (w_geo_level w) (w_zcta_list w) = None"
    using geo_clause_None_iff [of "w_geo_level w" "w_zcta_list w"] by blast
  then show "geo_clause (w_geo_level w) (w_zcta_list w) = None
       \<and> run net DataFrame column_label w s
           = (Stopped ''Enter at least one ZCTA.'',
              s\<lparr>URL_HITS := [], fetch_cache := [], labels_cache := []\<rparr>)"
    by (simp add: run_def reload_def)
qed

text \<open>The theorem at an input of three spaces.\<close>

theorem C3_witness:
  "geo_clause ''ZCTA (custom list)'' (Some ''   '') = None
   \<and> run demo_net rect_frame (\<lambda>i l. l) (zcta_widgets ''   '') init_state
      = (Stopped ''Enter at least one ZCTA.'', init_state)"
  using C3_blank_zcta_stops_run [of "zcta_widgets ''   ''" demo_net rect_frame "\<lambda>i l. l"
      init_state]
  by (simp add: zcta_widgets_def init_state_def)

text \<open>The claim as first stated fails on whitespace other than the space: a lone tab is
  not removed by \<open>replace(" ", "")\<close>, so \<open>geo_clause\<close> returns a clause and the run sends
  a request and logs its URL.\<close>

theorem C3_counterexample:
  "list_all is_whitespace [CHR 0x09]
   \<and> geo_clause ''ZCTA (custom list)'' (Some [CHR 0x09])
       = Some (''for=zip%20code%20tabulation%20area:'' @ [CHR 0x09])
   \<and> issued (snd (run demo_net rect_frame (\<lambda>i l. l) (zcta_widgets [CHR 0x09]) init_state))
       = [\<lparr>req_url = simple_url ''DP02_0062PE'' ''profile''
                    (''for=zip%20code%20tabulation%20area:'' @ [CHR 0x09]),
           req_timeout = Some 20\<rparr>]
   \<and> URL_HITS (snd (run demo_net rect_frame (\<lambda>i l. l) (zcta_widgets [CHR 0x09]) init_state))
       = [simple_url ''DP02_0062PE'' ''profile''
            (''for=zip%20code%20tabulation%20area:'' @ [CHR 0x09])]"
  by code_simp

lemma get_labels_body_state:
  "snd (get_labels_body net g s) = s\<lparr>issued := issued s @ [meta_request g]\<rparr>"
  by (simp add: get_labels_body_def http_get_def meta_request_def split: sum.splits option.splits)

lemma fetch_body_state:
  "snd (fetch_body net DataFrame url s) = s\<lparr>issued := issued s @ [data_request url]\<rparr>"
  by (simp add: fetch_body_def http_get_def data_request_def split: sum.splits option.splits)

lemma get_labels_miss:
  "map_of (labels_cache s) g = None \<Longrightarrow>
     issued (snd (get_labels net g s)) = issued s @ [meta_request g]"
  using get_labels_body_state [of net g s]
  by (auto simp add: get_labels_def split: prod.splits sum.splits)

lemma fetch_miss:
  "map_of (fetch_cache s) url = None \<Longrightarrow>
     issued (snd (fetch net DataFrame url s)) = issued s @ [data_request url]"
  using fetch_body_state [of net DataFrame url s]
  by (auto simp add: fetch_def split: prod.splits sum.splits)

text \<open>
  Claim C6, evaluated: from the initial state, \<open>get_labels("S1810")\<close> sends one request
  and it carries no timeout, whatever the network answers; \<open>fetch\<close> sends one request, with
  the timeout of 20. Neither sends a second request.
\<close>

theorem C6_metadata_request_has_no_timeout:
  "issued (snd (get_labels net ''S1810'' init_state))
     = [\<lparr>req_url = ''https://api.census.gov/data/2023/acs/acs5/subject/groups/S1810.json'',
         req_timeout = None\<rparr>]
   \<and> issued (snd (fetch net DataFrame url init_state))
     = [\<lparr>req_url = url, req_timeout = Some 20\<rparr>]"
  using get_labels_miss [of init_state "''S1810''" net]
    fetch_miss [of init_state url net DataFrame]
  by (simp add: init_state_def meta_request_def data_request_def meta_url_def YEAR_def)

lemma data_urls_simps [simp]:
  "data_urls [] = []"
  "data_urls (xs @ ys) = data_urls xs @ data_urls ys"
  "data_urls [meta_request g] = []"
  "data_urls [data_request url] = [url]"
  by (simp_all add: data_urls_def meta_request_def data_request_def)

lemma data_request_url [simp]: "req_url (data_request url) = url"
  by (simp add: data_request_def)

lemma get_labels_effect:
  "\<exists>new. issued (snd (get_labels net g s)) = issued s @ new
     \<and> (new = [] \<or> new = [meta_request g])
     \<and> URL_HITS (snd (get_labels net g s)) = URL_HITS s
     \<and> fetch_cache (snd (get_labels net g s)) = fetch_cache s
     \<and> pulls (snd (get_labels net g s)) = pulls s
     \<and> map_of (labels_cache s) \<subseteq>\<^sub>m map_of (labels_cache (snd (get_labels net g s)))"
proof (cases "map_of (labels_cache s) g")
  case (Some l)
  then show ?thesis by (simp add: get_labels_def)
next
  case None
  obtain res sb where b: "get_labels_body net g s = (res, sb)"
    by (cases "get_labels_body net g s")
  with get_labels_body_state [of net g s]
  have sb: "sb = s\<lparr>issued := issued s @ [meta_request g]\<rparr>" by simp
  show ?thesis
  proof (cases res)
    case (Inl e)
    with None b sb show ?thesis by (simp add: get_labels_def)
  next
    case (Inr l)
    have "map_of (labels_cache s) \<subseteq>\<^sub>m map_of ((g, l) # labels_cache s)"
      using None by (auto simp add: map_le_def dom_def)
    with Inr None b sb show ?thesis by (simp add: get_labels_def)
  qed
qed

lemma fetch_effect:
  "\<exists>new. issued (snd (fetch net DataFrame url s)) = issued s @ new
     \<and> (new = [] \<or> new = [data_request url])
     \<and> URL_HITS (snd (fetch net DataFrame url s)) = URL_HITS s
     \<and> labels_cache (snd (fetch net DataFrame url s)) = labels_cache s
     \<and> pulls (snd (fetch net DataFrame url s)) = pulls s"
proof (cases "map_of (fetch_cache s) url")
  case (Some df)
  then show ?thesis by (simp add: fetch_def)
next
  case None
  obtain res sb where b: "fetch_body net DataFrame url s = (res, sb)"
    by (cases "fetch_body net DataFrame url s")
  with fetch_body_state [of net DataFrame url s]
  have sb: "sb = s\<lparr>issued := issued s @ [data_request url]\<rparr>" by simp
  show ?thesis using None b sb by (cases res) (simp_all add: fetch_def)
qed

lemma grows_refl: "grows s s"
  by (simp add: grows_def)

lemma grows_trans: "grows s s' \<Longrightarrow> grows s' s'' \<Longrightarrow> grows s s''"
  unfolding grows_def
proof (elim conjE exE, intro conjI)
  fix n1 l1 n2 l2
  assume m1: "map_of (labels_cache s) \<subseteq>\<^sub>m map_of (labels_cache s')"
    and m2: "map_of (labels_cache s') \<subseteq>\<^sub>m map_of (labels_cache s'')"
    and i1: "issued s' = issued s @ n1" and u1: "URL_HITS s' = URL_HITS s @ l1"
    and e1: "\<forall>r \<in> set n1. r = data_request (req_url r) \<or> (\<exists>g. r = meta_request g)"
    and i2: "issued s'' = issued s' @ n2" and u2: "URL_HITS s'' = URL_HITS s' @ l2"
    and e2: "\<forall>r \<in> set n2. r = data_request (req_url r) \<or> (\<exists>g. r = meta_request g)"
  from m1 m2 show "map_of (labels_cache s) \<subseteq>\<^sub>m map_of (labels_cache s'')"
    by (rule map_le_trans)
  have "issued s'' = issued s @ (n1 @ n2)" using i1 i2 by simp
  moreover have "URL_HITS s'' = URL_HITS s @ (l1 @ l2)" using u1 u2 by simp
  moreover have "\<forall>r \<in> set (n1 @ n2). r = data_request (req_url r) \<or> (\<exists>g. r = meta_request g)"
    using e1 e2 by auto
  ultimately show "\<exists>new log. issued s'' = issued s @ new \<and> URL_HITS s'' = URL_HITS s @ log
      \<and> (\<forall>r \<in> set new. r = data_request (req_url r) \<or> (\<exists>g. r = meta_request g))"
    by blast
qed

lemma grows_get_labels: "grows s (snd (get_labels net g s))"
proof -
  from get_labels_effect [of net g s] obtain new where
    "issued (snd (get_labels net g s)) = issued s @ new" "new = [] \<or> new = [meta_request g]"
    "URL_HITS (snd (get_labels net g s)) = URL_HITS s @ []"
    "map_of (labels_cache s) \<subseteq>\<^sub>m map_of (labels_cache (snd (get_labels net g s)))"
    by auto
  then show ?thesis unfolding grows_def by (intro conjI exI [of _ new] exI [of _ "[]"]) auto
qed

lemma get_labels_hit:
  "map_of (labels_cache s) g = Some labels \<Longrightarrow> get_labels net g s = (Inr labels, s)"
  by (simp add: get_labels_def)

lemma get_labels_stores:
  "get_labels net g s = (Inr labels, s') \<Longrightarrow> map_of (labels_cache s') g = Some labels"
  by (auto simp add: get_labels_def split: option.splits prod.splits sum.splits)

lemma grows_cached:
  "grows s s' \<Longrightarrow> map_of (labels_cache s) g = Some labels
    \<Longrightarrow> map_of (labels_cache s') g = Some labels"
  by (auto simp add: grows_def map_le_def dom_def)

lemma select_vars_state:
  "snd (select_vars net g frag a sx r s) = snd (get_labels net g s)"
  by (simp add: select_vars_def split: prod.splits sum.splits)

lemma grows_select_vars: "grows s (snd (select_vars net g frag a sx r s))"
  by (simp add: select_vars_state grows_get_labels)

lemma grows_pulls: "grows (s\<lparr>pulls := p\<rparr>) s' \<Longrightarrow> grows s s'"
  by (simp add: grows_def)

lemma grows_log_fetch:
  "grows s (snd (fetch net DataFrame url (s\<lparr>URL_HITS := URL_HITS s @ [url]\<rparr>)))"
proof -
  let ?s2 = "s\<lparr>URL_HITS := URL_HITS s @ [url]\<rparr>"
  from fetch_effect [of net DataFrame url ?s2] obtain new where
    "issued (snd (fetch net DataFrame url ?s2)) = issued s @ new"
    "new = [] \<or> new = [data_request url]"
    "URL_HITS (snd (fetch net DataFrame url ?s2)) = URL_HITS s @ [url]"
    "labels_cache (snd (fetch net DataFrame url ?s2)) = labels_cache s"
    by auto
  then show ?thesis unfolding grows_def
    by (intro conjI exI [of _ new] exI [of _ "[url]"]) auto
qed

lemma pull_simple_log:
  "URL_HITS (snd (pull_simple net DataFrame code ds geo s))
     = URL_HITS s @ [simple_url code ds geo]"
  using fetch_effect [of net DataFrame "simple_url code ds geo"
      "s\<lparr>pulls := pulls s @ [Simple code ds],
         URL_HITS := URL_HITS s @ [simple_url code ds geo]\<rparr>"]
  by (auto simp add: pull_simple_def Let_def)

lemma pull_simple_trace:
  "pulls (snd (pull_simple net DataFrame code ds geo s)) = pulls s @ [Simple code ds]"
  using fetch_effect [of net DataFrame "simple_url code ds geo"
      "s\<lparr>pulls := pulls s @ [Simple code ds],
         URL_HITS := URL_HITS s @ [simple_url code ds geo]\<rparr>"]
  by (auto simp add: pull_simple_def Let_def)

lemma grows_pull_simple: "grows s (snd (pull_simple net DataFrame code ds geo s))"
  using grows_log_fetch [of "s\<lparr>pulls := pulls s @ [Simple code ds]\<rparr>" net DataFrame
      "simple_url code ds geo"]
  by (simp add: pull_simple_def Let_def grows_pulls)

lemma get_labels_log: "URL_HITS (snd (get_labels net g s)) = URL_HITS s"
  using get_labels_effect [of net g s] by auto

lemma get_labels_trace: "pulls (snd (get_labels net g s)) = pulls s"
  using get_labels_effect [of net g s] by auto

lemma get_labels_pulls_irrelevant:
  "fst (get_labels net g (s\<lparr>pulls := p\<rparr>)) = fst (get_labels net g s)"
  by (simp add: get_labels_def get_labels_body_def http_get_def
      split: option.splits prod.splits sum.splits)

lemma select_vars_pulls_irrelevant:
  "fst (select_vars net g frag a sx r (s\<lparr>pulls := p\<rparr>)) = fst (select_vars net g frag a sx r s)"
proof -
  obtain r1 s1 where a: "get_labels net g (s\<lparr>pulls := p\<rparr>) = (r1, s1)"
    by (cases "get_labels net g (s\<lparr>pulls := p\<rparr>)")
  obtain r2 s2 where b: "get_labels net g s = (r2, s2)" by (cases "get_labels net g s")
  from a b get_labels_pulls_irrelevant [where net = net and g = g and s = s and p = p] have "r1 = r2" by simp
  with a b show ?thesis by (simp add: select_vars_def split: sum.splits)
qed

lemma pull_detailed_cases:
  obtains (no_key)
      "map_of DETAILED ind = None"
      "pull_detailed net DataFrame lbl ind geo a sx r s0
         = (Inl (KeyError ind), s0\<lparr>pulls := pulls s0 @ [Detailed ind]\<rparr>)"
  | (select_failed) g frag u e s1 where
      "map_of DETAILED ind = Some (g, frag, u)"
      "select_vars net g frag a sx r (s0\<lparr>pulls := pulls s0 @ [Detailed ind]\<rparr>) = (Inl e, s1)"
      "pull_detailed net DataFrame lbl ind geo a sx r s0 = (Inl e, s1)"
  | (fetch_failed) g frag u vars s1 e s3 where
      "map_of DETAILED ind = Some (g, frag, u)"
      "select_vars net g frag a sx r (s0\<lparr>pulls := pulls s0 @ [Detailed ind]\<rparr>)
         = (Inr vars, s1)"
      "fetch net DataFrame (detailed_url vars geo)
         (s1\<lparr>URL_HITS := URL_HITS s1 @ [detailed_url vars geo]\<rparr>) = (Inl e, s3)"
      "pull_detailed net DataFrame lbl ind geo a sx r s0 = (Inl e, s3)"
  | (fetched) g frag u vars s1 df s3 res where
      "map_of DETAILED ind = Some (g, frag, u)"
      "select_vars net g frag a sx r (s0\<lparr>pulls := pulls s0 @ [Detailed ind]\<rparr>)
         = (Inr vars, s1)"
      "fetch net DataFrame (detailed_url vars geo)
         (s1\<lparr>URL_HITS := URL_HITS s1 @ [detailed_url vars geo]\<rparr>) = (Inr df, s3)"
      "pull_detailed net DataFrame lbl ind geo a sx r s0 = (res, snd (get_labels net g s3))"
proof (cases "map_of DETAILED ind")
  case None
  then show ?thesis using no_key by (simp add: pull_detailed_def Let_def)
next
  case (Some t)
  obtain g frag u where t: "t = (g, frag, u)" by (cases t)
  let ?s = "s0\<lparr>pulls := pulls s0 @ [Detailed ind]\<rparr>"
  obtain rv s1 where sv: "select_vars net g frag a sx r ?s = (rv, s1)"
    by (cases "select_vars net g frag a sx r ?s")
  show ?thesis
  proof (cases rv)
    case (Inl e)
    with Some t sv show ?thesis using select_failed [of g frag u e s1]
      by (simp add: pull_detailed_def Let_def)
  next
    case (Inr vars)
    let ?url = "detailed_url vars geo"
    let ?s2 = "s1\<lparr>URL_HITS := URL_HITS s1 @ [?url]\<rparr>"
    obtain rf s3 where f: "fetch net DataFrame ?url ?s2 = (rf, s3)"
      by (cases "fetch net DataFrame ?url ?s2")
    show ?thesis
    proof (cases rf)
      case (Inl e)
      with Some t sv Inr f show ?thesis using fetch_failed [of g frag u vars s1 e s3]
        by (simp add: pull_detailed_def Let_def)
    next
      case df: (Inr df)
      obtain rl s4 where l: "get_labels net g s3 = (rl, s4)" by (cases "get_labels net g s3")
      have "\<exists>res. pull_detailed net DataFrame lbl ind geo a sx r s0 = (res, s4)"
        using Some t sv Inr f df l
        by (cases rl) (simp_all add: pull_detailed_def Let_def split: sum.splits)
      with Some t sv Inr f df l show ?thesis using fetched [of g frag u vars s1 df s3]
        by auto
    qed
  qed
qed

lemma pull_detailed_trace:
  "pulls (snd (pull_detailed net DataFrame lbl ind geo a sx r s)) = pulls s @ [Detailed ind]"
proof (cases rule: pull_detailed_cases [of ind net DataFrame lbl geo a sx r s])
  case no_key
  then show ?thesis by simp
next
  case (select_failed g frag u e s1)
  then show ?thesis
    using select_vars_state [of net g frag a sx r "s\<lparr>pulls := pulls s @ [Detailed ind]\<rparr>"]
      get_labels_trace [of net g "s\<lparr>pulls := pulls s @ [Detailed ind]\<rparr>"]
    by simp
next
  case (fetch_failed g frag u vars s1 e s3)
  have "pulls s1 = pulls s @ [Detailed ind]"
    using fetch_failed(2)
      select_vars_state [of net g frag a sx r "s\<lparr>pulls := pulls s @ [Detailed ind]\<rparr>"]
      get_labels_trace [of net g "s\<lparr>pulls := pulls s @ [Detailed ind]\<rparr>"]
    by simp
  then show ?thesis
    using fetch_failed(3,4)
      fetch_effect [of net DataFrame "detailed_url vars geo"
        "s1\<lparr>URL_HITS := URL_HITS s1 @ [detailed_url vars geo]\<rparr>"]
    by auto
next
  case (fetched g frag u vars s1 df s3 res)
  have "pulls s1 = pulls s @ [Detailed ind]"
    using fetched(2)
      select_vars_state [of net g frag a sx r "s\<lparr>pulls := pulls s @ [Detailed ind]\<rparr>"]
      get_labels_trace [of net g "s\<lparr>pulls := pulls s @ [Detailed ind]\<rparr>"]
    by simp
  then have "pulls s3 = pulls s @ [Detailed ind]"
    using fetched(3)
      fetch_effect [of net DataFrame "detailed_url vars geo"
        "s1\<lparr>URL_HITS := URL_HITS s1 @ [detailed_url vars geo]\<rparr>"]
    by auto
  then show ?thesis using fetched(4) get_labels_trace [of net g s3] by simp
qed

lemma pull_detailed_log:
  assumes d: "map_of DETAILED ind = Some (g, frag, u)"
    and sv: "fst (select_vars net g frag a sx r s) = Inr vars"
  shows "URL_HITS (snd (pull_detailed net DataFrame lbl ind geo a sx r s))
    = URL_HITS s @ [detailed_url vars geo]"
proof -
  let ?s = "s\<lparr>pulls := pulls s @ [Detailed ind]\<rparr>"
  have sv': "fst (select_vars net g frag a sx r ?s) = Inr vars"
    using sv select_vars_pulls_irrelevant [where net = net and g = g and s = s] by simp
  have log1: "URL_HITS (snd (select_vars net g frag a sx r ?s)) = URL_HITS s"
    using select_vars_state [of net g frag a sx r ?s] get_labels_log [of net g ?s] by simp
  show ?thesis
  proof (cases rule: pull_detailed_cases [of ind net DataFrame lbl geo a sx r s])
    case no_key
    with d show ?thesis by simp
  next
    case (select_failed g' frag' u' e s1)
    with d sv' show ?thesis by simp
  next
    case (fetch_failed g' frag' u' vars' s1 e s3)
    with d sv' log1 have "vars' = vars" "URL_HITS s1 = URL_HITS s" by auto
    then show ?thesis
      using fetch_failed(3,4)
        fetch_effect [of net DataFrame "detailed_url vars geo"
          "s1\<lparr>URL_HITS := URL_HITS s1 @ [detailed_url vars geo]\<rparr>"]
      by auto
  next
    case (fetched g' frag' u' vars' s1 df s3 res)
    with d sv' log1 have "vars' = vars" "URL_HITS s1 = URL_HITS s" by auto
    then have "URL_HITS s3 = URL_HITS s @ [detailed_url vars geo]"
      using fetched(3)
        fetch_effect [of net DataFrame "detailed_url vars geo"
          "s1\<lparr>URL_HITS := URL_HITS s1 @ [detailed_url vars geo]\<rparr>"]
      by auto
    then show ?thesis using fetched(4) get_labels_log [of net g' s3] by simp
  qed
qed

lemma pull_detailed_returned:
  assumes "fst (pull_detailed net DataFrame lbl ind geo a sx r s) = Inr df"
  shows "\<exists>g frag u vars. map_of DETAILED ind = Some (g, frag, u)
           \<and> fst (select_vars net g frag a sx r s) = Inr vars"
proof (cases rule: pull_detailed_cases [of ind net DataFrame lbl geo a sx r s])
  case no_key
  with assms show ?thesis by simp
next
  case (select_failed g frag u e s1)
  with assms show ?thesis by simp
next
  case (fetch_failed g frag u vars s1 e s3)
  with assms show ?thesis by simp
next
  case (fetched g frag u vars s1 df' s3 res)
  have "fst (select_vars net g frag a sx r s) = Inr vars"
    using fetched(2) select_vars_pulls_irrelevant [where net = net and g = g and s = s
        and p = "pulls s @ [Detailed ind]" and frag = frag and a = a and sx = sx and r = r]
    by simp
  with fetched(1) show ?thesis by blast
qed

lemma grows_pull_detailed: "grows s (snd (pull_detailed net DataFrame lbl ind geo a sx r s))"
proof (cases rule: pull_detailed_cases [of ind net DataFrame lbl geo a sx r s])
  case no_key
  then show ?thesis by (simp add: grows_def)
next
  case (select_failed g frag u e s1)
  then show ?thesis
    using grows_select_vars [of "s\<lparr>pulls := pulls s @ [Detailed ind]\<rparr>" net g frag a sx r]
    by (simp add: grows_pulls)
next
  case (fetch_failed g frag u vars s1 e s3)
  have g1: "grows s s1"
    using fetch_failed(2)
      grows_select_vars [of "s\<lparr>pulls := pulls s @ [Detailed ind]\<rparr>" net g frag a sx r]
    by (simp add: grows_pulls)
  have "grows s1 s3"
    using fetch_failed(3) grows_log_fetch [of s1 net DataFrame "detailed_url vars geo"] by simp
  with g1 fetch_failed(4) show ?thesis using grows_trans by auto
next
  case (fetched g frag u vars s1 df s3 res)
  have g1: "grows s s1"
    using fetched(2)
      grows_select_vars [of "s\<lparr>pulls := pulls s @ [Detailed ind]\<rparr>" net g frag a sx r]
    by (simp add: grows_pulls)
  have "grows s1 s3"
    using fetched(3) grows_log_fetch [of s1 net DataFrame "detailed_url vars geo"] by simp
  with g1 have "grows s s3" by (rule grows_trans)
  then have "grows s (snd (get_labels net g s3))"
    using grows_get_labels [of s3 net g] by (rule grows_trans)
  with fetched(4) show ?thesis by simp
qed

lemma in_DETAILED_iff: "ind \<in> set (map fst DETAILED) \<longleftrightarrow> map_of DETAILED ind \<noteq> None"
  by (simp add: map_of_eq_None_iff)

lemma in_BASE_VARS:
  "ind \<in> set (map fst BASE_VARS) \<Longrightarrow> \<exists>code ds. map_of BASE_VARS ind = Some (code, ds)"
  by (cases "map_of BASE_VARS ind") (auto simp add: map_of_eq_None_iff)

lemma dispatch_iff:
  "dispatch ind a sx r = Inr (Detailed ind)
    \<longleftrightarrow> ind \<in> set (map fst DETAILED) \<and> (a \<or> sx \<or> r)"
  by (auto simp add: dispatch_def split: option.splits)

lemma dispatch_expected:
  "ind \<in> set (map fst BASE_VARS) \<Longrightarrow> dispatch ind a sx r = Inr (expected_pull a sx r ind)"
  using in_BASE_VARS [of ind] by (auto simp add: dispatch_def)

lemma grows_pull_indicator:
  "grows s (snd (pull_indicator net DataFrame lbl geo a sx r ind s))"
  by (simp add: pull_indicator_def grows_refl grows_pull_detailed grows_pull_simple
      split: sum.splits pull.splits)

lemma pull_indicator_trace:
  "ind \<in> set (map fst BASE_VARS) \<Longrightarrow>
     pulls (snd (pull_indicator net DataFrame lbl geo a sx r ind s))
       = pulls s @ [expected_pull a sx r ind]"
  using dispatch_expected [of ind a sx r]
  by (auto simp add: pull_indicator_def pull_detailed_trace pull_simple_trace)

lemma grows_pull_loop:
  "grows s (snd (pull_loop net DataFrame lbl geo a sx r inds frames s))"
proof (induction inds arbitrary: frames s)
  case Nil
  then show ?case by (simp add: grows_refl)
next
  case (Cons ind inds)
  obtain res s1 where p: "pull_indicator net DataFrame lbl geo a sx r ind s = (res, s1)"
    by (cases "pull_indicator net DataFrame lbl geo a sx r ind s")
  have g1: "grows s s1"
    using grows_pull_indicator [of s net DataFrame lbl geo a sx r ind] p by simp
  show ?case
  proof (cases res)
    case (Inl e)
    with p g1 show ?thesis by simp
  next
    case (Inr df)
    with p show ?thesis using grows_trans [OF g1 Cons.IH] by simp
  qed
qed

lemma geo_clause_nonempty: "geo_clause level z = Some geo \<Longrightarrow> geo \<noteq> []"
  by (auto simp add: geo_clause_def Let_def split: if_splits)

lemma reload_log [simp]: "(reload s)\<lparr>URL_HITS := []\<rparr> = reload s"
  by (simp add: reload_def)

lemma run_cases:
  obtains (stopped)
      "geo_clause (w_geo_level w) (w_zcta_list w) = None"
      "run net DataFrame lbl w s = (Stopped ''Enter at least one ZCTA.'', reload s)"
  | (pulled) geo res s' where
      "geo_clause (w_geo_level w) (w_zcta_list w) = Some geo"
      "pull_loop net DataFrame lbl geo (w_age w) (w_sex w) (w_race w) (w_chosen w) []
         (reload s) = (res, s')"
      "snd (run net DataFrame lbl w s) = s'"
      "\<And>e. res = Inl e \<Longrightarrow> fst (run net DataFrame lbl w s) = Raised e"
      "\<And>frames. res = Inr frames \<Longrightarrow>
         fst (run net DataFrame lbl w s)
           = (case assemble frames of Inl e \<Rightarrow> Raised e
              | Inr df \<Rightarrow> Shown (rename_columns (rename_base df) df))"
proof (cases "geo_clause (w_geo_level w) (w_zcta_list w)")
  case None
  then show ?thesis using stopped by (simp add: run_def)
next
  case (Some geo)
  then have ne: "geo \<noteq> []" by (rule geo_clause_nonempty)
  let ?p = "pull_loop net DataFrame lbl geo (w_age w) (w_sex w) (w_race w) (w_chosen w) []
                 (reload s)"
  obtain res s' where p: "?p = (res, s')" by (cases ?p)
  show ?thesis
  proof (rule pulled [OF Some p])
    show "snd (run net DataFrame lbl w s) = s'"
      using Some ne p by (cases res) (simp_all add: run_def split: sum.splits)
    show "fst (run net DataFrame lbl w s) = Raised e" if "res = Inl e" for e
      using that Some ne p by (simp add: run_def)
    show "fst (run net DataFrame lbl w s)
           = (case assemble frames of Inl e \<Rightarrow> Raised e
              | Inr df \<Rightarrow> Shown (rename_columns (rename_base df) df))"
      if "res = Inr frames" for frames
      using that Some ne p by (simp add: run_def split: sum.splits)
  qed
qed

lemma grows_run: "grows (reload s) (snd (run net DataFrame lbl w s))"
proof (cases rule: run_cases [of w net DataFrame lbl s])
  case stopped
  then show ?thesis by (simp add: grows_refl)
next
  case (pulled geo res s')
  then show ?thesis
    using grows_pull_loop [of "reload s" net DataFrame lbl geo "w_age w" "w_sex w" "w_race w"
        "w_chosen w" "[]"]
    by simp
qed

lemma pull_indicator_simple:
  "ind \<in> set (map fst BASE_VARS) \<Longrightarrow>
     pull_indicator net DataFrame lbl geo False False False ind s
       = pull_simple net DataFrame (fst (the (map_of BASE_VARS ind)))
           (snd (the (map_of BASE_VARS ind))) geo s"
  using dispatch_expected [of ind False False False]
  by (simp add: pull_indicator_def)

lemma pull_loop_trace:
  assumes "list_all (\<lambda>i. i \<in> set (map fst BASE_VARS)) inds"
  shows "\<exists>k \<le> length inds.
      pulls (snd (pull_loop net DataFrame lbl geo a sx r inds frames s))
        = pulls s @ map (expected_pull a sx r) (take k inds)
      \<and> (inds \<noteq> [] \<longrightarrow> 0 < k)
      \<and> ((\<exists>out. fst (pull_loop net DataFrame lbl geo a sx r inds frames s) = Inr out)
           \<longrightarrow> k = length inds)
      \<and> (\<not> (a \<or> sx \<or> r) \<longrightarrow>
           URL_HITS (snd (pull_loop net DataFrame lbl geo a sx r inds frames s))
             = URL_HITS s @ map (\<lambda>ind. simple_url (fst (the (map_of BASE_VARS ind)))
                                    (snd (the (map_of BASE_VARS ind))) geo) (take k inds))"
  using assms
proof (induction inds arbitrary: frames s)
  case Nil
  then show ?case by simp
next
  case (Cons ind inds)
  from Cons.prems have ind: "ind \<in> set (map fst BASE_VARS)"
    and rest: "list_all (\<lambda>i. i \<in> set (map fst BASE_VARS)) inds" by simp_all
  obtain res s1 where p: "pull_indicator net DataFrame lbl geo a sx r ind s = (res, s1)"
    by (cases "pull_indicator net DataFrame lbl geo a sx r ind s")
  have tr: "pulls s1 = pulls s @ [expected_pull a sx r ind]"
    using pull_indicator_trace [OF ind, of net DataFrame lbl geo a sx r s] p by simp
  have lg: "URL_HITS s1 = URL_HITS s @ [simple_url (fst (the (map_of BASE_VARS ind)))
                                    (snd (the (map_of BASE_VARS ind))) geo]"
    if "\<not> (a \<or> sx \<or> r)"
  proof -
    from that have "pull_indicator net DataFrame lbl geo a sx r ind s
        = pull_simple net DataFrame (fst (the (map_of BASE_VARS ind)))
            (snd (the (map_of BASE_VARS ind))) geo s"
      using pull_indicator_simple [OF ind, of net DataFrame lbl geo s] by simp
    with p have "s1 = snd (pull_simple net DataFrame (fst (the (map_of BASE_VARS ind)))
            (snd (the (map_of BASE_VARS ind))) geo s)"
      by simp
    then show ?thesis by (simp add: pull_simple_log)
  qed
  show ?case
  proof (cases res)
    case (Inl e)
    with p tr lg show ?thesis by (intro exI [of _ 1]) auto
  next
    case (Inr df)
    from Cons.IH [OF rest, of "frames @ [df]" s1] obtain k where
      k: "k \<le> length inds"
      and ktr: "pulls (snd (pull_loop net DataFrame lbl geo a sx r inds (frames @ [df]) s1))
        = pulls s1 @ map (expected_pull a sx r) (take k inds)"
      and kout: "(\<exists>out. fst (pull_loop net DataFrame lbl geo a sx r inds (frames @ [df]) s1)
                  = Inr out) \<longrightarrow> k = length inds"
      and klog: "\<not> (a \<or> sx \<or> r) \<longrightarrow>
           URL_HITS (snd (pull_loop net DataFrame lbl geo a sx r inds (frames @ [df]) s1))
             = URL_HITS s1 @ map (\<lambda>ind. simple_url (fst (the (map_of BASE_VARS ind)))
                                    (snd (the (map_of BASE_VARS ind))) geo) (take k inds)"
      by blast
    have loop: "pull_loop net DataFrame lbl geo a sx r (ind # inds) frames s
        = pull_loop net DataFrame lbl geo a sx r inds (frames @ [df]) s1"
      using p Inr by simp
    show ?thesis
      unfolding loop
      using k ktr kout klog tr lg by (intro exI [of _ "Suc k"]) auto
  qed
qed

text \<open>
  Claim C9. In a run that gets past the geography check, with the chosen indicators among
  those of \<open>BASE_VARS\<close> (the options of the multiselect), the calls of the two pull functions
  made by the run are, in order, one per chosen indicator up to the one that raises:
  \<open>pull_detailed(ind, ...)\<close> exactly for an indicator that is a key of \<open>DETAILED\<close> when a
  breakdown flag is set, and \<open>pull_simple\<close> with the code and dataset \<open>BASE_VARS\<close> gives it
  otherwise. The first chosen indicator is always pulled, and a run that shows a table
  has pulled all of them. With no flag set every pull is a \<open>pull_simple\<close>, and the log
  holds the simple URLs of the indicators pulled.
\<close>

theorem C9_run_pulls:
  "geo_clause (w_geo_level w) (w_zcta_list w) = Some geo
   \<and> list_all (\<lambda>ind. ind \<in> set (map fst BASE_VARS)) (w_chosen w)
   \<and> s' = snd (run net DataFrame column_label w s)
   \<and> k = length (pulls s') - length (pulls s)
   \<longrightarrow> pulls s'
         = pulls s @ map (\<lambda>ind. if ind \<in> set (map fst DETAILED)
                                    \<and> (w_age w \<or> w_sex w \<or> w_race w)
                                 then Detailed ind
                                 else Simple (fst (the (map_of BASE_VARS ind)))
                                        (snd (the (map_of BASE_VARS ind))))
                       (take k (w_chosen w))
     \<and> k \<le> length (w_chosen w)
     \<and> (w_chosen w \<noteq> [] \<longrightarrow> 0 < k)
     \<and> ((\<exists>df. fst (run net DataFrame column_label w s) = Shown df)
          \<longrightarrow> k = length (w_chosen w))
     \<and> (k < length (w_chosen w)
          \<longrightarrow> (\<exists>e. fst (run net DataFrame column_label w s) = Raised e))
     \<and> (\<not> (w_age w \<or> w_sex w \<or> w_race w)
          \<longrightarrow> URL_HITS s'
              = map (\<lambda>ind. simple_url (fst (the (map_of BASE_VARS ind)))
                             (snd (the (map_of BASE_VARS ind))) geo)
                  (take k (w_chosen w)))"
proof (intro impI, elim conjE)
  assume geo: "geo_clause (w_geo_level w) (w_zcta_list w) = Some geo"
    and base: "list_all (\<lambda>ind. ind \<in> set (map fst BASE_VARS)) (w_chosen w)"
    and s': "s' = snd (run net DataFrame column_label w s)"
    and k: "k = length (pulls s') - length (pulls s)"
  let ?E = "\<lambda>ind. if ind \<in> set (map fst DETAILED) \<and> (w_age w \<or> w_sex w \<or> w_race w)
                   then Detailed ind
                   else Simple (fst (the (map_of BASE_VARS ind)))
                          (snd (the (map_of BASE_VARS ind)))"
  let ?U = "\<lambda>ind. simple_url (fst (the (map_of BASE_VARS ind)))
                     (snd (the (map_of BASE_VARS ind))) geo"
  show "pulls s' = pulls s @ map ?E (take k (w_chosen w))
     \<and> k \<le> length (w_chosen w)
     \<and> (w_chosen w \<noteq> [] \<longrightarrow> 0 < k)
     \<and> ((\<exists>df. fst (run net DataFrame column_label w s) = Shown df)
          \<longrightarrow> k = length (w_chosen w))
     \<and> (k < length (w_chosen w)
          \<longrightarrow> (\<exists>e. fst (run net DataFrame column_label w s) = Raised e))
     \<and> (\<not> (w_age w \<or> w_sex w \<or> w_race w) \<longrightarrow> URL_HITS s' = map ?U (take k (w_chosen w)))"
  proof (cases rule: run_cases [of w net DataFrame column_label s])
    case stopped
    with geo show ?thesis by simp
  next
    case (pulled geo' res sp)
    with geo have g: "geo' = geo" by simp
    let ?p = "pull_loop net DataFrame column_label geo (w_age w) (w_sex w) (w_race w)
        (w_chosen w) [] (reload s)"
    have pl: "?p = (res, sp)" using pulled(2) g by simp
    from pull_loop_trace [OF base, of net DataFrame column_label geo "w_age w" "w_sex w"
        "w_race w" "[]" "reload s"]
    obtain j where j: "j \<le> length (w_chosen w)"
      and jtr0: "pulls (snd ?p) = pulls (reload s) @ map ?E (take j (w_chosen w))"
      and jpos: "w_chosen w \<noteq> [] \<longrightarrow> 0 < j"
      and jout0: "(\<exists>out. fst ?p = Inr out) \<longrightarrow> j = length (w_chosen w)"
      and jlog0: "\<not> (w_age w \<or> w_sex w \<or> w_race w)
           \<longrightarrow> URL_HITS (snd ?p) = URL_HITS (reload s) @ map ?U (take j (w_chosen w))"
      by blast
    have jtr: "pulls sp = pulls (reload s) @ map ?E (take j (w_chosen w))"
      using jtr0 pl by simp
    have jout: "(\<exists>out. res = Inr out) \<longrightarrow> j = length (w_chosen w)"
      using jout0 pl by simp
    have jlog: "\<not> (w_age w \<or> w_sex w \<or> w_race w)
           \<longrightarrow> URL_HITS sp = URL_HITS (reload s) @ map ?U (take j (w_chosen w))"
      using jlog0 pl by auto
    have sp: "s' = sp" using s' pulled(3) by simp
    have "length (pulls sp) = length (pulls s) + j"
      using jtr j by (simp add: reload_def)
    with k sp have kj: "k = j" by simp
    have shown: "k = length (w_chosen w)"
      if "\<exists>df. fst (run net DataFrame column_label w s) = Shown df"
    proof (cases res)
      case (Inl e)
      with pulled(4) that show ?thesis by auto
    next
      case (Inr frames)
      with jout kj show ?thesis by simp
    qed
    have raised: "\<exists>e. fst (run net DataFrame column_label w s) = Raised e"
      if "k < length (w_chosen w)"
    proof (cases res)
      case (Inl e)
      with pulled(4) show ?thesis by blast
    next
      case (Inr frames)
      with jout kj that show ?thesis by simp
    qed
    show ?thesis
      using jtr j jpos jlog kj sp shown raised by (simp add: reload_def)
  qed
qed

lemma plain_run_pulls:
  "pulls (snd (run demo_net rect_frame (\<lambda>i l. l) plain_widgets init_state))
     = [Simple ''S1810_C02_001E'' ''subject'', Simple ''DP02_0062PE'' ''profile'']"
  by code_simp

lemma plain_widgets_fields:
  "w_geo_level plain_widgets = ''County (Pierce)''"
  "w_zcta_list plain_widgets = None"
  "w_chosen plain_widgets = [''Disability (%)'', ''HS diploma 25+ (%)'']"
  "w_age plain_widgets = False" "w_sex plain_widgets = False" "w_race plain_widgets = False"
  by (simp_all add: plain_widgets_def)

lemma BASE_VARS_keys:
  "map fst BASE_VARS =
    [''HS diploma 25+ (%)'', ''Disability (%)'', ''Speak English < very well (%)'',
     ''Poverty <100% FPL (%)'', ''Median household income ($)'',
     ''Housing cost '' @ [CHR 0xE2, CHR 0x89, CHR 0xA5] @ ''30% income (%)'',
     ''Unemployment rate 16+ (%)'', ''Households with no vehicle (%)'',
     ''Insurance coverage (%)'']"
  by (simp add: BASE_VARS_def)

lemma BASE_VARS_Disability:
  "map_of BASE_VARS ''Disability (%)'' = Some (''S1810_C02_001E'', ''subject'')"
  by (simp add: BASE_VARS_def)

lemma BASE_VARS_HS:
  "map_of BASE_VARS ''HS diploma 25+ (%)'' = Some (''DP02_0062PE'', ''profile'')"
  by (simp add: BASE_VARS_def)

text \<open>The theorem at the county level with two indicators, one of them detailed-capable,
  and no breakdown: both are pulled by \<open>pull_simple\<close> with their configured pairs, and the
  log holds their two simple URLs.\<close>

theorem C9_witness:
  "pulls (snd (run demo_net rect_frame (\<lambda>i l. l) plain_widgets init_state))
     = [Simple ''S1810_C02_001E'' ''subject'', Simple ''DP02_0062PE'' ''profile'']
   \<and> URL_HITS (snd (run demo_net rect_frame (\<lambda>i l. l) plain_widgets init_state))
     = [simple_url ''S1810_C02_001E'' ''subject'' ''for=county:053&in=state:53'',
        simple_url ''DP02_0062PE'' ''profile'' ''for=county:053&in=state:53'']"
proof -
  have geo: "geo_clause (w_geo_level plain_widgets) (w_zcta_list plain_widgets)
      = Some ''for=county:053&in=state:53''"
    by (simp add: plain_widgets_fields geo_clause_def PIERCE_def STATE_def)
  have base: "list_all (\<lambda>ind. ind \<in> set (map fst BASE_VARS)) (w_chosen plain_widgets)"
    by (simp add: plain_widgets_fields BASE_VARS_keys)
  have k: "(2::nat) = length (pulls (snd (run demo_net rect_frame (\<lambda>i l. l) plain_widgets
      init_state))) - length (pulls init_state)"
  proof -
    have "pulls init_state = []" by (simp add: init_state_def)
    then show ?thesis by (simp add: plain_run_pulls)
  qed
  note th = C9_run_pulls [where w = plain_widgets and geo = "''for=county:053&in=state:53''"
      and net = demo_net and DataFrame = rect_frame and column_label = "\<lambda>i l. l"
      and s = init_state and k = 2
      and s' = "snd (run demo_net rect_frame (\<lambda>i l. l) plain_widgets init_state)",
      THEN mp, OF conjI [OF geo conjI [OF base conjI [OF refl k]]]]
  from th [THEN conjunct1] th [THEN conjunct2, THEN conjunct2, THEN conjunct2, THEN conjunct2,
      THEN conjunct2]
  show ?thesis
    by (simp add: plain_widgets_fields init_state_def BASE_VARS_Disability BASE_VARS_HS
        DETAILED_def)
qed

lemma get_labels_raises:
  assumes miss: "map_of (labels_cache s) g = None"
    and resp: "net (issued s) (meta_request g) = Inr r"
  shows "body r = None \<Longrightarrow> fst (get_labels net g s) = Inl JSONDecodeError"
    and "body r = Some j \<Longrightarrow> getitem j ''variables'' = Inl e
          \<Longrightarrow> fst (get_labels net g s) = Inl e"
    and "body r = Some j \<Longrightarrow> getitem j ''variables'' = Inr v \<Longrightarrow> items v = Inl e
          \<Longrightarrow> fst (get_labels net g s) = Inl e"
    and "body r = Some j \<Longrightarrow> getitem j ''variables'' = Inr v \<Longrightarrow> items v = Inr kvs
          \<Longrightarrow> labels_comp kvs DAList.empty = Inl e \<Longrightarrow> fst (get_labels net g s) = Inl e"
  using miss resp
  by (simp_all add: get_labels_def get_labels_body_def http_get_def meta_request_def)

lemma get_labels_network_error:
  "map_of (labels_cache s) g = None \<Longrightarrow> net (issued s) (meta_request g) = Inl e
    \<Longrightarrow> fst (get_labels net g s) = Inl e"
  by (simp add: get_labels_def get_labels_body_def http_get_def meta_request_def)

lemma pull_detailed_metadata_error:
  assumes det: "map_of DETAILED ind = Some (g, frag, u)"
    and err: "fst (get_labels net g s) = Inl e"
  shows "fst (pull_detailed net DataFrame lbl ind geo a sx r s) = Inl e"
proof -
  have "fst (get_labels net g (s\<lparr>pulls := pulls s @ [Detailed ind]\<rparr>)) = Inl e"
    using err get_labels_pulls_irrelevant [where net = net and g = g and s = s] by simp
  then show ?thesis
    using det by (auto simp add: pull_detailed_def select_vars_def Let_def
        split: prod.splits sum.splits)
qed

lemma run_metadata_error:
  assumes geo: "geo_clause (w_geo_level w) (w_zcta_list w) = Some geo"
    and first: "w_chosen w = ind # rest"
    and flag: "w_age w \<or> w_sex w \<or> w_race w"
    and det: "map_of DETAILED ind = Some (g, frag, u)"
    and err: "fst (get_labels net g (reload s)) = Inl e"
  shows "fst (run net DataFrame lbl w s) = Raised e"
proof (cases rule: run_cases [of w net DataFrame lbl s])
  case stopped
  with geo show ?thesis by simp
next
  case (pulled geo' res s')
  let ?s = "reload s"
  from det have "ind \<in> set (map fst DETAILED)"
    using in_DETAILED_iff [of ind] by simp
  with flag have "dispatch ind (w_age w) (w_sex w) (w_race w) = Inr (Detailed ind)"
    by (simp add: dispatch_iff)
  then have "pull_indicator net DataFrame lbl geo' (w_age w) (w_sex w) (w_race w) ind ?s
      = pull_detailed net DataFrame lbl ind geo' (w_age w) (w_sex w) (w_race w) ?s"
    by (simp add: pull_indicator_def)
  moreover have "fst (pull_detailed net DataFrame lbl ind geo' (w_age w) (w_sex w) (w_race w)
      ?s) = Inl e"
    using det err by (rule pull_detailed_metadata_error)
  ultimately have "res = Inl e"
    using first pulled(2) by (auto split: prod.splits)
  then show ?thesis by (rule pulled(4))
qed

lemma flaky_get_labels:
  "get_labels flaky_net ''S1810'' init_state =
    (Inr demo_labels,
     init_state\<lparr>issued := [meta_request ''S1810''],
                 labels_cache := [(''S1810'', demo_labels)]\<rparr>)"
  by (simp add: get_labels_def get_labels_body_def http_get_def flaky_net_def init_state_def
      demo_meta_def demo_labels_def meta_request_def)

lemma flaky_run:
  "fst (run flaky_net rect_frame (\<lambda>i l. l) age_widgets init_state) =
     Shown \<lparr>index_len = 1,
       columns =
         [(''NAME'', [Val (JStr ''Pierce County, Washington'')]),
          (''Estimate!!With a disability!!Total!!AGE!!Under 5 years'', [Val (JStr ''0.7'')]),
          (''state'', [Val (JStr ''53'')]),
          (''county'', [Val (JStr ''053'')])]\<rparr>"
  by code_simp

lemma flaky_fetch:
  "fst (fetch flaky_net DataFrame (meta_url ''S1810'') init_state) = Inl (HTTPError 500)"
  by (simp add: fetch_def fetch_body_def http_get_def flaky_net_def init_state_def
      raise_for_status_def)

text \<open>
  Claim C7, evaluated where the metadata endpoint answers with status 500 and a body of
  the expected shape: \<open>get_labels\<close> returns the mapping read from the body and caches it,
  and the run goes on to show a table. \<open>fetch\<close> on the same response raises
  \<open>HTTPError\<close>.
\<close>

theorem C7_metadata_status_ignored:
  "get_labels flaky_net ''S1810'' init_state =
    (Inr demo_labels,
     init_state\<lparr>issued := [meta_request ''S1810''],
                 labels_cache := [(''S1810'', demo_labels)]\<rparr>)
   \<and> fst (run flaky_net rect_frame (\<lambda>i l. l) age_widgets init_state) =
     Shown \<lparr>index_len = 1,
       columns =
         [(''NAME'', [Val (JStr ''Pierce County, Washington'')]),
          (''Estimate!!With a disability!!Total!!AGE!!Under 5 years'', [Val (JStr ''0.7'')]),
          (''state'', [Val (JStr ''53'')]),
          (''county'', [Val (JStr ''053'')])]\<rparr>
   \<and> fst (fetch flaky_net DataFrame (meta_url ''S1810'') init_state) = Inl (HTTPError 500)"
  using flaky_get_labels flaky_run flaky_fetch by blast

text \<open>
  Claim C4 (as amended). When a call \<open>get_labels(group_id)\<close> returns a mapping, it has sent
  exactly one request if the group was not cached before, and for the rest of that
  execution of the script every call with that group id returns the same mapping and
  leaves the state as it is (so it sends no request), whatever the network would answer:
  directly after the first call, after a call for another group, and after any further
  pulls of the run. The cache does not outlive the execution: a new press of Run starts
  with an empty cache, and its first call for a group sends the request again.
\<close>

theorem C4_get_labels_cached:
  "(get_labels net g s = (Inr labels, s1) \<longrightarrow>
      (map_of (labels_cache s) g = None \<longrightarrow> issued s1 = issued s @ [meta_request g])
      \<and> get_labels net' g s1 = (Inr labels, s1)
      \<and> get_labels net' g (snd (get_labels net'' g' s1))
          = (Inr labels, snd (get_labels net'' g' s1))
      \<and> get_labels net' g (snd (pull_loop net'' DataFrame lbl geo a sx r inds frames s1))
          = (Inr labels, snd (pull_loop net'' DataFrame lbl geo a sx r inds frames s1)))
   \<and> labels_cache (reload s) = []
   \<and> issued (snd (get_labels net g (reload s))) = issued s @ [meta_request g]"
proof (intro impI conjI)
  assume first: "get_labels net g s = (Inr labels, s1)"
  then have c: "map_of (labels_cache s1) g = Some labels" by (rule get_labels_stores)
  show "issued s1 = issued s @ [meta_request g]" if "map_of (labels_cache s) g = None"
    using get_labels_miss [OF that, of net] first by simp
  show "get_labels net' g s1 = (Inr labels, s1)"
    using c by (rule get_labels_hit)
  show "get_labels net' g (snd (get_labels net'' g' s1))
         = (Inr labels, snd (get_labels net'' g' s1))"
    using grows_cached [OF grows_get_labels c] by (rule get_labels_hit)
  show "get_labels net' g (snd (pull_loop net'' DataFrame lbl geo a sx r inds frames s1))
          = (Inr labels, snd (pull_loop net'' DataFrame lbl geo a sx r inds frames s1))"
    using grows_cached [OF grows_pull_loop c] by (rule get_labels_hit)
next
  show "labels_cache (reload s) = []" by (simp add: reload_def)
next
  have "map_of (labels_cache (reload s)) g = None" by (simp add: reload_def)
  from get_labels_miss [OF this, of net]
  show "issued (snd (get_labels net g (reload s))) = issued s @ [meta_request g]"
    by (simp add: reload_def)
qed

text \<open>The theorem at the demo network; the second call is made with the network down.\<close>

theorem C4_witness:
  "get_labels demo_net ''S1810'' init_state =
    (Inr demo_labels,
     init_state\<lparr>issued := [meta_request ''S1810''],
                 labels_cache := [(''S1810'', demo_labels)]\<rparr>)
   \<and> get_labels down_net ''S1810''
        (init_state\<lparr>issued := [meta_request ''S1810''],
                    labels_cache := [(''S1810'', demo_labels)]\<rparr>)
      = (Inr demo_labels,
         init_state\<lparr>issued := [meta_request ''S1810''],
                     labels_cache := [(''S1810'', demo_labels)]\<rparr>)"
proof -
  have first: "get_labels demo_net ''S1810'' init_state =
    (Inr demo_labels,
     init_state\<lparr>issued := [meta_request ''S1810''],
                 labels_cache := [(''S1810'', demo_labels)]\<rparr>)"
    by (simp add: demo_get_labels meta_request_def)
  note th = C4_get_labels_cached [where net = demo_net and g = "''S1810''"
      and s = init_state and labels = demo_labels and net' = down_net
      and ?s1.0 = "init_state\<lparr>issued := [meta_request ''S1810''],
                   labels_cache := [(''S1810'', demo_labels)]\<rparr>",
      THEN conjunct1, THEN mp, OF first]
  from first th [THEN conjunct2, THEN conjunct1] show ?thesis by simp
qed

text \<open>The claim as first stated fails when the first call raises: nothing is cached, and
  the second call sends a second request. It also fails across two presses of Run: the
  second press loads the script anew and fetches the metadata of the group again.\<close>

theorem C4_counterexample:
  "fst (get_labels down_net ''S1810'' init_state) = Inl RequestException
   \<and> issued (snd (get_labels down_net ''S1810''
                    (snd (get_labels down_net ''S1810'' init_state))))
      = [meta_request ''S1810'', meta_request ''S1810'']
   \<and> map req_url (issued (snd (run demo_net rect_frame (\<lambda>i l. l) age_widgets
        (snd (run demo_net rect_frame (\<lambda>i l. l) age_widgets init_state)))))
      = [meta_url ''S1810'',
         detailed_url [''S1810_C02_002E''] ''for=county:053&in=state:53'',
         meta_url ''S1810'',
         detailed_url [''S1810_C02_002E''] ''for=county:053&in=state:53'']"
proof -
  have "map req_url (issued (snd (run demo_net rect_frame (\<lambda>i l. l) age_widgets
        (snd (run demo_net rect_frame (\<lambda>i l. l) age_widgets init_state)))))
      = [meta_url ''S1810'',
         detailed_url [''S1810_C02_002E''] ''for=county:053&in=state:53'',
         meta_url ''S1810'',
         detailed_url [''S1810_C02_002E''] ''for=county:053&in=state:53'']"
    by code_simp
  then show ?thesis
    by (simp add: get_labels_def get_labels_body_def http_get_def down_net_def init_state_def
        meta_request_def)
qed

lemma first_places_snoc:
  "rev (remdups (rev (xs @ [u]))) = rev (remdups (rev xs)) @ (if u \<in> set xs then [] else [u])"
  by simp

lemma first_places_distinct: "distinct xs \<Longrightarrow> rev (remdups (rev xs)) = xs"
  by (simp add: distinct_remdups_id)

lemma tracked_pulls [simp]: "tracked n (s\<lparr>pulls := p\<rparr>) = tracked n s"
  by (simp add: tracked_def)

lemma cache_matches_log_pulls [simp]:
  "cache_matches_log (s\<lparr>pulls := p\<rparr>) = cache_matches_log s"
  by (simp add: cache_matches_log_def)

lemma tracked_get_labels: "tracked n s \<Longrightarrow> tracked n (snd (get_labels net g s))"
  using get_labels_effect [of net g s] by (auto simp add: tracked_def)

lemma cache_matches_log_get_labels:
  assumes "cache_matches_log s"
  shows "cache_matches_log (snd (get_labels net g s))"
proof -
  from get_labels_effect [of net g s]
  have "URL_HITS (snd (get_labels net g s)) = URL_HITS s"
    "fetch_cache (snd (get_labels net g s)) = fetch_cache s"
    by blast+
  with assms show ?thesis by (simp add: cache_matches_log_def)
qed

lemma fetch_logged:
  assumes cm: "cache_matches_log s" and tr: "tracked n s"
    and len: "length (URL_HITS s) < 256"
  shows "tracked n (snd (fetch net DataFrame url (s\<lparr>URL_HITS := URL_HITS s @ [url]\<rparr>)))"
    and "fst (fetch net DataFrame url (s\<lparr>URL_HITS := URL_HITS s @ [url]\<rparr>)) = Inr df
          \<Longrightarrow> cache_matches_log
                (snd (fetch net DataFrame url (s\<lparr>URL_HITS := URL_HITS s @ [url]\<rparr>)))"
proof -
  let ?s2 = "s\<lparr>URL_HITS := URL_HITS s @ [url]\<rparr>"
  from cm have keys: "set (map fst (fetch_cache s)) = set (URL_HITS s)"
    and size: "length (fetch_cache s) \<le> length (URL_HITS s)"
    by (simp_all add: cache_matches_log_def)
  from tr have n: "n \<le> length (issued s)"
    and sent: "data_urls (drop n (issued s)) = rev (remdups (rev (URL_HITS s)))"
    by (simp_all add: tracked_def)
  have both: "tracked n (snd (fetch net DataFrame url ?s2))
      \<and> (fst (fetch net DataFrame url ?s2) = Inr df
            \<longrightarrow> cache_matches_log (snd (fetch net DataFrame url ?s2)))"
  proof (cases "map_of (fetch_cache s) url")
    case (Some hit)
    then have "url \<in> set (map fst (fetch_cache s))"
      by (metis map_of_eq_None_iff option.distinct(1) set_map)
    with keys have inlog: "url \<in> set (URL_HITS s)" by simp
    have st: "snd (fetch net DataFrame url ?s2)
        = ?s2\<lparr>fetch_cache := (url, hit) # filter (\<lambda>p. fst p \<noteq> url) (fetch_cache s)\<rparr>"
      using Some by (simp add: fetch_def)
    from \<open>url \<in> set (map fst (fetch_cache s))\<close>
    obtain p where "p \<in> set (fetch_cache s)" "\<not> fst p \<noteq> url" by auto
    then have "length (filter (\<lambda>p. fst p \<noteq> url) (fetch_cache s)) < length (fetch_cache s)"
      by (rule length_filter_less)
    with size have sz: "Suc (length (filter (\<lambda>p. fst p \<noteq> url) (fetch_cache s)))
        \<le> Suc (length (URL_HITS s))" by simp
    have ks: "set (map fst ((url, hit) # filter (\<lambda>p. fst p \<noteq> url) (fetch_cache s)))
        = set (URL_HITS s @ [url])"
      using keys inlog by auto
    show ?thesis
      unfolding st using n sent inlog sz ks
      by (simp add: tracked_def cache_matches_log_def)
  next
    case None
    then have "url \<notin> set (map fst (fetch_cache s))"
      by (simp add: map_of_eq_None_iff)
    with keys have fresh: "url \<notin> set (URL_HITS s)" by simp
    obtain res sb where b: "fetch_body net DataFrame url ?s2 = (res, sb)"
      by (cases "fetch_body net DataFrame url ?s2")
    with fetch_body_state [of net DataFrame url ?s2]
    have sb: "sb = ?s2\<lparr>issued := issued s @ [data_request url]\<rparr>" by simp
    show ?thesis
    proof (cases res)
      case (Inl e)
      with None b sb have "snd (fetch net DataFrame url ?s2) = sb"
        "fst (fetch net DataFrame url ?s2) = Inl e"
        by (simp_all add: fetch_def)
      with sb n sent fresh show ?thesis by (simp add: tracked_def)
    next
      case (Inr tbl)
      from size len have "Suc (length (fetch_cache s)) \<le> 256" by simp
      then have tk: "take 256 ((url, tbl) # fetch_cache s) = (url, tbl) # fetch_cache s"
        by simp
      from Inr None b sb tk have "snd (fetch net DataFrame url ?s2)
          = sb\<lparr>fetch_cache := (url, tbl) # fetch_cache s\<rparr>"
        by (simp add: fetch_def)
      with sb n sent fresh keys size show ?thesis
        by (simp add: tracked_def cache_matches_log_def)
    qed
  qed
  from both show "tracked n (snd (fetch net DataFrame url ?s2))" by simp
  from both show "cache_matches_log (snd (fetch net DataFrame url ?s2))"
    if "fst (fetch net DataFrame url ?s2) = Inr df"
    using that by simp
qed

lemma pull_simple_inv:
  assumes "cache_matches_log s" "tracked n s" "length (URL_HITS s) < 256"
  shows "tracked n (snd (pull_simple net DataFrame code ds geo s))"
    and "fst (pull_simple net DataFrame code ds geo s) = Inr df
          \<Longrightarrow> cache_matches_log (snd (pull_simple net DataFrame code ds geo s))"
  using fetch_logged(1) [where s = "s\<lparr>pulls := pulls s @ [Simple code ds]\<rparr>" and n = n
      and net = net and DataFrame = DataFrame and url = "simple_url code ds geo"]
    fetch_logged(2) [where s = "s\<lparr>pulls := pulls s @ [Simple code ds]\<rparr>" and n = n
      and net = net and DataFrame = DataFrame and url = "simple_url code ds geo" and df = df]
    assms
  by (simp_all add: pull_simple_def Let_def)

lemma pull_detailed_inv:
  assumes cm: "cache_matches_log s" and tr: "tracked n s"
    and len: "length (URL_HITS s) < 256"
  shows "tracked n (snd (pull_detailed net DataFrame lbl ind geo a sx r s))"
    and "fst (pull_detailed net DataFrame lbl ind geo a sx r s) = Inr df
          \<Longrightarrow> cache_matches_log (snd (pull_detailed net DataFrame lbl ind geo a sx r s))"
proof -
  let ?s = "s\<lparr>pulls := pulls s @ [Detailed ind]\<rparr>"
  have sel: "tracked n (snd (select_vars net g frag a sx r ?s))
      \<and> cache_matches_log (snd (select_vars net g frag a sx r ?s))
      \<and> URL_HITS (snd (select_vars net g frag a sx r ?s)) = URL_HITS s" for g frag
    using tr cm tracked_get_labels [of n ?s net g] cache_matches_log_get_labels [of ?s net g]
      get_labels_log [of net g ?s]
    by (simp add: select_vars_state)
  have both: "tracked n (snd (pull_detailed net DataFrame lbl ind geo a sx r s))
      \<and> (fst (pull_detailed net DataFrame lbl ind geo a sx r s) = Inr df
           \<longrightarrow> cache_matches_log (snd (pull_detailed net DataFrame lbl ind geo a sx r s)))"
  proof (cases rule: pull_detailed_cases [of ind net DataFrame lbl geo a sx r s])
    case no_key
    with tr show ?thesis by simp
  next
    case (select_failed g frag u e s1)
    with sel [of g frag] show ?thesis by simp
  next
    case (fetch_failed g frag u vars s1 e s3)
    from sel [of g frag] fetch_failed(2) have s1: "tracked n s1" "cache_matches_log s1"
      "length (URL_HITS s1) < 256" using len by simp_all
    from fetch_logged(1) [OF s1(2) s1(1) s1(3), of net DataFrame "detailed_url vars geo"]
      fetch_failed(3,4)
    show ?thesis by simp
  next
    case (fetched g frag u vars s1 tbl s3 res)
    from sel [of g frag] fetched(2) have s1: "tracked n s1" "cache_matches_log s1"
      "length (URL_HITS s1) < 256" using len by simp_all
    from fetch_logged(1) [OF s1(2) s1(1) s1(3), where net = net and DataFrame = DataFrame
        and url = "detailed_url vars geo"]
      fetch_logged(2) [OF s1(2) s1(1) s1(3), where net = net and DataFrame = DataFrame
        and url = "detailed_url vars geo" and df = tbl]
      fetched(3)
    have "tracked n s3" "cache_matches_log s3" by simp_all
    then have "tracked n (snd (get_labels net g s3))"
      "cache_matches_log (snd (get_labels net g s3))"
      by (simp_all add: tracked_get_labels cache_matches_log_get_labels)
    with fetched(4) show ?thesis by simp
  qed
  from both show "tracked n (snd (pull_detailed net DataFrame lbl ind geo a sx r s))" by simp
  from both show "cache_matches_log (snd (pull_detailed net DataFrame lbl ind geo a sx r s))"
    if "fst (pull_detailed net DataFrame lbl ind geo a sx r s) = Inr df"
    using that by simp
qed

lemma pull_indicator_inv:
  assumes "cache_matches_log s" "tracked n s" "length (URL_HITS s) < 256"
  shows "tracked n (snd (pull_indicator net DataFrame lbl geo a sx r ind s))"
    and "fst (pull_indicator net DataFrame lbl geo a sx r ind s) = Inr df
          \<Longrightarrow> cache_matches_log (snd (pull_indicator net DataFrame lbl geo a sx r ind s))"
  using assms pull_simple_inv [OF assms] pull_detailed_inv [OF assms]
  by (auto simp add: pull_indicator_def split: sum.splits pull.splits)

lemma pull_indicator_log_length:
  assumes ok: "fst (pull_indicator net DataFrame lbl geo a sx r ind s) = Inr df"
  shows "length (URL_HITS (snd (pull_indicator net DataFrame lbl geo a sx r ind s)))
        = Suc (length (URL_HITS s))"
proof (cases "dispatch ind a sx r")
  case (Inl e)
  with ok show ?thesis by (simp add: pull_indicator_def)
next
  case (Inr p)
  show ?thesis
  proof (cases p)
    case (Simple code ds)
    with Inr show ?thesis by (simp add: pull_indicator_def pull_simple_log)
  next
    case (Detailed i)
    with Inr ok have okd: "fst (pull_detailed net DataFrame lbl i geo a sx r s) = Inr df"
      by (simp add: pull_indicator_def)
    from pull_detailed_returned [OF okd] obtain g frag u vars where
      "map_of DETAILED i = Some (g, frag, u)"
      "fst (select_vars net g frag a sx r s) = Inr vars"
      by blast
    then have "URL_HITS (snd (pull_detailed net DataFrame lbl i geo a sx r s))
        = URL_HITS s @ [detailed_url vars geo]"
      by (rule pull_detailed_log)
    with Inr Detailed show ?thesis by (simp add: pull_indicator_def)
  qed
qed

lemma pull_loop_log_length:
  "fst (pull_loop net DataFrame lbl geo a sx r inds frames s) = Inr out
    \<Longrightarrow> length (URL_HITS (snd (pull_loop net DataFrame lbl geo a sx r inds frames s)))
        = length (URL_HITS s) + length inds"
proof (induction inds arbitrary: frames s)
  case Nil
  then show ?case by simp
next
  case (Cons ind inds)
  obtain res s1 where p: "pull_indicator net DataFrame lbl geo a sx r ind s = (res, s1)"
    by (cases "pull_indicator net DataFrame lbl geo a sx r ind s")
  show ?case
  proof (cases res)
    case (Inl e)
    with p Cons.prems show ?thesis by simp
  next
    case (Inr df)
    with p have "length (URL_HITS s1) = Suc (length (URL_HITS s))"
      using pull_indicator_log_length [of net DataFrame lbl geo a sx r ind s df] by simp
    moreover from p Inr Cons.prems
    have "fst (pull_loop net DataFrame lbl geo a sx r inds (frames @ [df]) s1) = Inr out"
      by simp
    ultimately show ?thesis using Cons.IH p Inr by simp
  qed
qed

lemma pull_loop_inv:
  "cache_matches_log s \<Longrightarrow> tracked n s \<Longrightarrow> length (URL_HITS s) + length inds \<le> 256
    \<Longrightarrow> tracked n (snd (pull_loop net DataFrame lbl geo a sx r inds frames s))"
proof (induction inds arbitrary: frames s)
  case Nil
  then show ?case by simp
next
  case (Cons ind inds)
  from Cons.prems have len: "length (URL_HITS s) < 256" by simp
  obtain res s1 where p: "pull_indicator net DataFrame lbl geo a sx r ind s = (res, s1)"
    by (cases "pull_indicator net DataFrame lbl geo a sx r ind s")
  have t1: "tracked n s1"
    using pull_indicator_inv(1) [OF Cons.prems(1,2) len, of net DataFrame lbl geo a sx r ind] p
    by simp
  show ?case
  proof (cases res)
    case (Inl e)
    with p t1 show ?thesis by simp
  next
    case (Inr df)
    have c1: "cache_matches_log s1"
      using pull_indicator_inv(2) [OF Cons.prems(1,2) len, of net DataFrame lbl geo a sx r ind
          df] p Inr
      by simp
    have "length (URL_HITS s1) = Suc (length (URL_HITS s))"
      using pull_indicator_log_length [of net DataFrame lbl geo a sx r ind s df] p Inr by simp
    with Cons.prems have l1: "length (URL_HITS s1) + length inds \<le> 256" by simp
    from Cons.IH [OF c1 t1 l1] p Inr show ?thesis by simp
  qed
qed

lemma run_tracked:
  assumes "length (w_chosen w) \<le> 256"
  shows "tracked (length (issued s)) (snd (run net DataFrame lbl w s))"
proof -
  have c0: "cache_matches_log (reload s)" by (simp add: cache_matches_log_def reload_def)
  have t0: "tracked (length (issued s)) (reload s)" by (simp add: tracked_def reload_def)
  show ?thesis
  proof (cases rule: run_cases [of w net DataFrame lbl s])
    case stopped
    with t0 show ?thesis by simp
  next
    case (pulled geo res s')
    have "length (URL_HITS (reload s)) + length (w_chosen w) \<le> 256"
      using assms by (simp add: reload_def)
    from pull_loop_inv [OF c0 t0 this, of net DataFrame lbl geo "w_age w" "w_sex w" "w_race w"
        "[]"] pulled(2,3)
    show ?thesis by simp
  qed
qed

lemma run_log_length:
  assumes "fst (run net DataFrame lbl w s) = Shown df"
  shows "length (URL_HITS (snd (run net DataFrame lbl w s))) = length (w_chosen w)"
proof (cases rule: run_cases [of w net DataFrame lbl s])
  case stopped
  with assms show ?thesis by simp
next
  case (pulled geo res s')
  show ?thesis
  proof (cases res)
    case (Inl e)
    with pulled(4) assms show ?thesis by simp
  next
    case (Inr frames)
    with pulled(2)
    have "fst (pull_loop net DataFrame lbl geo (w_age w) (w_sex w) (w_race w) (w_chosen w) []
                 (reload s)) = Inr frames"
      by simp
    from pull_loop_log_length [OF this] pulled(2,3) show ?thesis by (simp add: reload_def)
  qed
qed

lemma run_requests:
  "prefix (issued s) (issued (snd (run net DataFrame lbl w s)))
   \<and> (\<forall>req \<in> set (drop (length (issued s)) (issued (snd (run net DataFrame lbl w s)))).
         req = data_request (req_url req) \<or> (\<exists>g. req = meta_request g))"
proof -
  from grows_run [of s net DataFrame lbl w] obtain new where
    new: "issued (snd (run net DataFrame lbl w s)) = issued s @ new"
      "\<forall>r \<in> set new. r = data_request (req_url r) \<or> (\<exists>g. r = meta_request g)"
    by (auto simp add: grows_def reload_def)
  then show ?thesis by simp
qed

lemma demo_run_age:
  "(case fst (run demo_net rect_frame (\<lambda>i l. l) age_widgets init_state) of
      Shown df \<Rightarrow> True | _ \<Rightarrow> False)
   \<and> URL_HITS (snd (run demo_net rect_frame (\<lambda>i l. l) age_widgets init_state))
     = [detailed_url [''S1810_C02_002E''] ''for=county:053&in=state:53'']
   \<and> map req_url (issued (snd (run demo_net rect_frame (\<lambda>i l. l) age_widgets init_state)))
     = [meta_url ''S1810'', detailed_url [''S1810_C02_002E''] ''for=county:053&in=state:53'']
   \<and> map req_timeout
        (issued (snd (run demo_net rect_frame (\<lambda>i l. l) age_widgets init_state)))
     = [None, Some 20]"
  by code_simp

lemma age_widgets_chosen: "w_chosen age_widgets = [''Disability (%)'']"
  by (simp add: age_widgets_def)

text \<open>A URL can be logged twice in one run when the metadata of a group names a code of
  another pull: at \<open>clash_net\<close> both pulls log the same URL, the second is answered from
  the cache of \<open>fetch\<close>, and the one data request is followed by the metadata request.\<close>

lemma clash_run_log:
  "URL_HITS (snd (run clash_net rect_frame (\<lambda>i l. l) clash_widgets init_state))
     = [simple_url ''S1901_C01_012E'' ''subject'' ''for=county:053&in=state:53'',
        detailed_url [''S1901_C01_012E''] ''for=county:053&in=state:53'']
   \<and> simple_url ''S1901_C01_012E'' ''subject'' ''for=county:053&in=state:53''
     = detailed_url [''S1901_C01_012E''] ''for=county:053&in=state:53''
   \<and> map req_url (issued (snd (run clash_net rect_frame (\<lambda>i l. l) clash_widgets init_state)))
     = [simple_url ''S1901_C01_012E'' ''subject'' ''for=county:053&in=state:53'',
        meta_url ''S1810'']"
  by code_simp

text \<open>Claim C8. Pressing Run clears the log: a run gives the same result and state
  whatever the log held before. \<open>pull_simple\<close> appends its URL to the log whatever
  \<open>fetch\<close> then does (a cached answer, a request, an error), and so does \<open>pull_detailed\<close>
  once \<open>select_vars\<close> has returned its codes. A run only adds requests to the history,
  each one a data request of \<open>fetch\<close> or a metadata request of \<open>get_labels\<close>. With at most
  256 indicators chosen, the URLs of the data requests sent during the run are, in order,
  exactly the URLs of the final log, each at its first place in the log; so when no URL
  is logged twice, the log is exactly the sequence of the data requests sent. A run that
  shows a table has logged one URL for each chosen indicator. The metadata requests are
  sent during the run and are in no log.\<close>

theorem C8_url_log:
  "run net DataFrame lbl w (s\<lparr>URL_HITS := old\<rparr>) = run net DataFrame lbl w s
   \<and> URL_HITS (snd (pull_simple net DataFrame code ds geo s))
       = URL_HITS s @ [simple_url code ds geo]
   \<and> (map_of DETAILED ind = Some (g, frag, u)
        \<and> fst (select_vars net g frag a sx r s) = Inr vars
      \<longrightarrow> URL_HITS (snd (pull_detailed net DataFrame lbl ind geo a sx r s))
            = URL_HITS s @ [detailed_url vars geo])
   \<and> prefix (issued s) (issued (snd (run net DataFrame lbl w s)))
   \<and> (\<forall>req \<in> set (drop (length (issued s)) (issued (snd (run net DataFrame lbl w s)))).
         req = data_request (req_url req) \<or> (\<exists>g. req = meta_request g))
   \<and> (length (w_chosen w) \<le> 256
      \<longrightarrow> data_urls (drop (length (issued s)) (issued (snd (run net DataFrame lbl w s))))
            = rev (remdups (rev (URL_HITS (snd (run net DataFrame lbl w s))))))
   \<and> (length (w_chosen w) \<le> 256 \<and> distinct (URL_HITS (snd (run net DataFrame lbl w s)))
      \<longrightarrow> URL_HITS (snd (run net DataFrame lbl w s))
            = data_urls (drop (length (issued s))
                (issued (snd (run net DataFrame lbl w s)))))
   \<and> (\<forall>df. fst (run net DataFrame lbl w s) = Shown df
        \<longrightarrow> length (URL_HITS (snd (run net DataFrame lbl w s))) = length (w_chosen w))"
proof -
  have cleared: "run net DataFrame lbl w (s\<lparr>URL_HITS := old\<rparr>) = run net DataFrame lbl w s"
    by (simp add: run_def reload_def)
  have detailed: "map_of DETAILED ind = Some (g, frag, u)
        \<and> fst (select_vars net g frag a sx r s) = Inr vars
      \<longrightarrow> URL_HITS (snd (pull_detailed net DataFrame lbl ind geo a sx r s))
            = URL_HITS s @ [detailed_url vars geo]"
    using pull_detailed_log [of ind g frag u net a sx r s vars DataFrame lbl geo] by blast
  have sent: "data_urls (drop (length (issued s)) (issued (snd (run net DataFrame lbl w s))))
            = rev (remdups (rev (URL_HITS (snd (run net DataFrame lbl w s)))))"
    if "length (w_chosen w) \<le> 256"
    using run_tracked [OF that, of s net DataFrame lbl] by (simp add: tracked_def)
  have exact: "URL_HITS (snd (run net DataFrame lbl w s))
            = data_urls (drop (length (issued s))
                (issued (snd (run net DataFrame lbl w s))))"
    if "length (w_chosen w) \<le> 256" "distinct (URL_HITS (snd (run net DataFrame lbl w s)))"
    using sent [OF that(1)] first_places_distinct [OF that(2)] by simp
  show ?thesis
    using cleared pull_simple_log [of net DataFrame code ds geo s] detailed
      run_requests [of s net DataFrame lbl w] sent exact
      run_log_length [of net DataFrame lbl w s]
    by blast
qed

text \<open>The theorem at the demo network, for "Disability (%)" by age: one URL is logged, the
  one of the data request sent.\<close>

theorem C8_witness:
  "run demo_net rect_frame (\<lambda>i l. l) age_widgets (init_state\<lparr>URL_HITS := [''stale'']\<rparr>)
     = run demo_net rect_frame (\<lambda>i l. l) age_widgets init_state
   \<and> data_urls (drop (length (issued init_state))
        (issued (snd (run demo_net rect_frame (\<lambda>i l. l) age_widgets init_state))))
     = rev (remdups (rev
         (URL_HITS (snd (run demo_net rect_frame (\<lambda>i l. l) age_widgets init_state)))))
   \<and> URL_HITS (snd (run demo_net rect_frame (\<lambda>i l. l) age_widgets init_state))
     = data_urls (drop (length (issued init_state))
         (issued (snd (run demo_net rect_frame (\<lambda>i l. l) age_widgets init_state))))
   \<and> length (URL_HITS (snd (run demo_net rect_frame (\<lambda>i l. l) age_widgets init_state)))
     = length (w_chosen age_widgets)
   \<and> URL_HITS (snd (pull_detailed demo_net rect_frame (\<lambda>i l. l) ''Disability (%)''
         ''for=county:053&in=state:53'' True False False init_state))
     = URL_HITS init_state
         @ [detailed_url [''S1810_C02_002E''] ''for=county:053&in=state:53'']"
proof -
  note th = C8_url_log [where net = demo_net and DataFrame = rect_frame
      and lbl = "\<lambda>i l. l" and w = age_widgets and s = init_state and old = "[''stale'']"
      and ind = "''Disability (%)''" and g = "''S1810''" and frag = "''With a disability''"
      and u = "''civilian''" and a = True and sx = False and r = False
      and vars = "[''S1810_C02_002E'']" and geo = "''for=county:053&in=state:53''"]
  have len: "length (w_chosen age_widgets) \<le> 256" by (simp add: age_widgets_chosen)
  have dis: "distinct (URL_HITS (snd (run demo_net rect_frame (\<lambda>i l. l) age_widgets
      init_state)))"
    using demo_run_age by simp
  have key: "map_of DETAILED ''Disability (%)''
      = Some (''S1810'', ''With a disability'', ''civilian'')"
    by (simp add: DETAILED_def)
  have sel: "fst (select_vars demo_net ''S1810'' ''With a disability'' True False False
      init_state) = Inr [''S1810_C02_002E'']"
    by (simp add: demo_select_age)
  from demo_run_age obtain df where
    shown: "fst (run demo_net rect_frame (\<lambda>i l. l) age_widgets init_state) = Shown df"
    by (cases "fst (run demo_net rect_frame (\<lambda>i l. l) age_widgets init_state)") simp_all
  from th have c1: "run demo_net rect_frame (\<lambda>i l. l) age_widgets
      (init_state\<lparr>URL_HITS := [''stale'']\<rparr>)
     = run demo_net rect_frame (\<lambda>i l. l) age_widgets init_state"
    by (rule conjunct1)
  from th key sel have c3: "URL_HITS (snd (pull_detailed demo_net rect_frame (\<lambda>i l. l)
         ''Disability (%)'' ''for=county:053&in=state:53'' True False False init_state))
     = URL_HITS init_state
         @ [detailed_url [''S1810_C02_002E''] ''for=county:053&in=state:53'']"
    by blast
  from th len have c6: "data_urls (drop (length (issued init_state))
        (issued (snd (run demo_net rect_frame (\<lambda>i l. l) age_widgets init_state))))
     = rev (remdups (rev
         (URL_HITS (snd (run demo_net rect_frame (\<lambda>i l. l) age_widgets init_state)))))"
    by blast
  from th len dis
  have c7: "URL_HITS (snd (run demo_net rect_frame (\<lambda>i l. l) age_widgets init_state))
     = data_urls (drop (length (issued init_state))
         (issued (snd (run demo_net rect_frame (\<lambda>i l. l) age_widgets init_state))))"
    by blast
  from th shown
  have c8: "length (URL_HITS (snd (run demo_net rect_frame (\<lambda>i l. l) age_widgets
        init_state)))
     = length (w_chosen age_widgets)"
    by blast
  from c1 c3 c6 c7 c8 show ?thesis by blast
qed

text \<open>The claim as first stated fails for a detailed pull: the run sends two requests,
  the metadata request for the group and then the data request, and its log holds the
  URL of the data request only.\<close>

theorem C8_counterexample:
  "URL_HITS (snd (run demo_net rect_frame (\<lambda>i l. l) age_widgets init_state))
     = [detailed_url [''S1810_C02_002E''] ''for=county:053&in=state:53'']
   \<and> map req_url (issued (snd (run demo_net rect_frame (\<lambda>i l. l) age_widgets init_state)))
     = [meta_url ''S1810'', detailed_url [''S1810_C02_002E''] ''for=county:053&in=state:53'']
   \<and> URL_HITS (snd (run demo_net rect_frame (\<lambda>i l. l) age_widgets init_state))
     \<noteq> map req_url (issued (snd (run demo_net rect_frame (\<lambda>i l. l) age_widgets init_state)))"
  by code_simp

lemma duplicated_from_seen:
  "set seen = set seen' \<Longrightarrow> duplicated_from seen cs = duplicated_from seen' cs"
  by (induction cs arbitrary: seen seen') auto

lemma loc_keep_first:
  "map fst (filter snd (zip cols (map Not (duplicated_from seen (map fst cols)))))
    = keep_first seen cols"
proof (induction cols arbitrary: seen)
  case Nil
  then show ?case by simp
next
  case (Cons col cols)
  obtain c x where col: "col = (c, x)" by (cases col)
  show ?case
  proof (cases "c \<in> set seen")
    case True
    then have "set (c # seen) = set seen" by auto
    then have "duplicated_from (c # seen) (map fst cols) = duplicated_from seen (map fst cols)"
      by (rule duplicated_from_seen)
    with True col Cons.IH [of seen] show ?thesis by simp
  next
    case False
    with col Cons.IH [of "c # seen"] show ?thesis by simp
  qed
qed

lemma drop_duplicated_columns:
  "columns (drop_duplicated df) = keep_first [] (columns df)"
  by (simp add: drop_duplicated_def loc_columns_def duplicated_def loc_keep_first)

lemma drop_duplicated_index: "index_len (drop_duplicated df) = index_len df"
  by (simp add: drop_duplicated_def loc_columns_def)

lemma keep_first_names: "set (map fst (keep_first seen cols)) = set (map fst cols) - set seen"
  by (induction seen cols rule: keep_first.induct) auto

lemma keep_first_fresh: "(c, x) \<in> set (keep_first seen cols) \<Longrightarrow> c \<notin> set seen"
  using keep_first_names [of seen cols] by force

lemma keep_first_distinct: "distinct (map fst (keep_first seen cols))"
proof (induction seen cols rule: keep_first.induct)
  case (1 seen)
  then show ?case by simp
next
  case (2 seen c x cols)
  have "c \<notin> fst ` set (keep_first (c # seen) cols)"
    using keep_first_fresh [of c _ "c # seen" cols] by auto
  with 2 show ?case by simp
qed

lemma keep_first_subseq: "subseq (keep_first seen cols) cols"
  by (induction seen cols rule: keep_first.induct) auto

lemma keep_first_map_of:
  "map_of (keep_first seen cols) k = (if k \<in> set seen then None else map_of cols k)"
proof (induction seen cols rule: keep_first.induct)
  case (1 seen)
  then show ?case by simp
next
  case (2 seen c x cols)
  show ?case
  proof (cases "c \<in> set seen")
    case True
    with 2 show ?thesis by auto
  next
    case False
    with 2 show ?thesis by simp
  qed
qed

lemma map_of_pad:
  "map_of (map (\<lambda>(c, xs). (c, pad n xs)) cols) k = map_option (pad n) (map_of cols k)"
  by (induction cols) auto

lemma count_distinct:
  "distinct (map fst cols) \<Longrightarrow> map_of cols k = Some v
    \<Longrightarrow> length (filter (\<lambda>c. fst c = k) cols) = 1"
proof (induction cols)
  case Nil
  then show ?case by simp
next
  case (Cons col cols)
  show ?case
  proof (cases "fst col = k")
    case True
    with Cons.prems have "k \<notin> fst ` set cols" by auto
    then have "filter (\<lambda>c. fst c = k) cols = []"
      by (auto simp add: filter_empty_conv)
    with True show ?thesis by simp
  next
    case False
    with Cons show ?thesis by auto
  qed
qed

lemma upt_Suc_shift: "[0..<Suc n] = 0 # map Suc [0..<n]"
  by (simp add: upt_conv_Cons map_Suc_upt del: upt_Suc)

lemma keep_first_positions:
  "keep_first seen cols
    = map ((!) cols)
        (filter (\<lambda>i. fst (cols ! i) \<notin> set seen \<union> fst ` set (take i cols)) [0..<length cols])"
proof (induction cols arbitrary: seen)
  case Nil
  then show ?case by simp
next
  case (Cons col cols)
  obtain c x where col: "col = (c, x)" by (cases col)
  have tl: "map ((!) (col # cols))
        (filter (\<lambda>i. fst ((col # cols) ! i) \<notin> set seen \<union> fst ` set (take i (col # cols)))
           (map Suc [0..<length cols]))
      = map ((!) cols)
          (filter (\<lambda>i. fst (cols ! i) \<notin> set (c # seen) \<union> fst ` set (take i cols))
             [0..<length cols])"
  proof -
    have "(\<lambda>i. fst (cols ! i) \<notin> set seen \<and> fst (cols ! i) \<noteq> c
              \<and> fst (cols ! i) \<notin> fst ` set (take i cols))
        = (\<lambda>i. fst (cols ! i) \<noteq> c \<and> fst (cols ! i) \<notin> set seen
              \<and> fst (cols ! i) \<notin> fst ` set (take i cols))"
      by (rule ext) blast
    then show ?thesis by (simp add: filter_map comp_def col)
  qed
  show ?case
  proof (cases "c \<in> set seen")
    case True
    then have "set (c # seen) = set seen" by auto
    then have "map ((!) cols)
          (filter (\<lambda>i. fst (cols ! i) \<notin> set (c # seen) \<union> fst ` set (take i cols))
             [0..<length cols]) = keep_first seen cols"
      by (simp only: Cons.IH [of seen])
    with True tl col show ?thesis
      by (simp add: upt_Suc_shift del: upt_Suc)
  next
    case False
    with tl col Cons.IH [of "c # seen"] show ?thesis
      by (simp add: upt_Suc_shift del: upt_Suc)
  qed
qed

lemma drop_duplicated_positions:
  "drop_duplicated df
    = \<lparr>index_len = index_len df,
       columns = map ((!) (columns df))
         (filter (\<lambda>i. fst (columns df ! i) \<notin> fst ` set (take i (columns df)))
            [0..<length (columns df)])\<rparr>"
proof -
  have "columns (drop_duplicated df)
      = map ((!) (columns df))
         (filter (\<lambda>i. fst (columns df ! i) \<notin> fst ` set (take i (columns df)))
            [0..<length (columns df)])"
    using keep_first_positions [of "[]" "columns df"] by (simp add: drop_duplicated_columns)
  moreover have "index_len (drop_duplicated df) = index_len df"
    by (rule drop_duplicated_index)
  ultimately show ?thesis by simp
qed

lemma fold_max_Max: "xs \<noteq> [] \<Longrightarrow> fold max xs (0::nat) = Max (set xs)"
proof -
  assume ne: "xs \<noteq> []"
  have "fold max xs 0 = Max (set (0 # xs))" by (simp only: Max.set_eq_fold)
  also have "\<dots> = Max (set xs)" using ne by simp
  finally show ?thesis .
qed

lemma pad_replicate:
  "(\<lambda>(c, xs). (c, pad n xs)) = (\<lambda>(c, xs). (c, xs @ replicate (n - length xs) NaN))"
  by (simp add: pad_def)

lemma concat_axis1_wide:
  assumes "frames \<noteq> []"
  shows "concat_axis1 frames
    = Inr \<lparr>index_len = Max (set (map index_len frames)),
           columns = concat (map (\<lambda>f. map (\<lambda>(c, xs).
                (c, xs @ replicate (Max (set (map index_len frames)) - length xs) NaN))
              (columns f)) frames)\<rparr>"
proof -
  from assms have "fold max (map index_len frames) 0 = Max (set (map index_len frames))"
    by (simp add: fold_max_Max)
  with assms show ?thesis by (simp add: concat_axis1_def Let_def pad_replicate)
qed

lemma fetch_body_returned:
  assumes "fst (fetch_body net DataFrame url s) = Inr tbl"
  shows "\<exists>r j raw. net (issued s) (data_request url) = Inr r \<and> body r = Some j
          \<and> DataFrame j = Inr raw \<and> tbl = drop_duplicated raw"
  using assms
  by (auto simp add: fetch_body_def http_get_def data_request_def Let_def
      split: prod.splits sum.splits option.splits)

text \<open>Claim C5. For a sequence of per-indicator tables that is not empty, the assembler
  returns a table. Its row count \<open>n\<close> is that of the longest table. With \<open>wide\<close> the
  columns of all the tables side by side, in the order of the tables, each column filled
  with \<open>NaN\<close> up to \<open>n\<close> rows, the columns of the result are exactly the columns of \<open>wide\<close>
  at the positions whose name stands at no earlier position, in their order: of the
  columns of one name the first is kept, where it stood, and the others are dropped. So the
  names of the result are distinct and every name of a table is among them. Assembling two
  tables of which the first has a \<open>NAME\<close> column (whether or not the second has one)
  yields exactly one \<open>NAME\<close> column, with the cells of the first table. The table \<open>fetch\<close>
  builds is, for any table the pandas constructor makes of the body, that table with its
  columns filtered in the same way.\<close>

theorem C5_assemble_keeps_first:
  "(frames \<noteq> [] \<longrightarrow>
      (let n = Max (set (map index_len frames));
           wide = concat (map (\<lambda>f. map (\<lambda>(c, xs). (c, xs @ replicate (n - length xs) NaN))
                                     (columns f)) frames)
       in assemble frames
            = Inr \<lparr>index_len = n,
                   columns = map ((!) wide)
                     (filter (\<lambda>i. fst (wide ! i) \<notin> fst ` set (take i wide))
                        [0..<length wide])\<rparr>))
   \<and> (frames \<noteq> [] \<longrightarrow>
      (\<exists>df. assemble frames = Inr df \<and> distinct (map fst (columns df))
         \<and> set (map fst (columns df)) = (\<Union>f \<in> set frames. set (map fst (columns f)))))
   \<and> (map_of (columns t1) ''NAME'' = Some xs \<longrightarrow>
      (\<exists>df. assemble [t1, t2] = Inr df
         \<and> length (filter (\<lambda>c. fst c = ''NAME'') (columns df)) = 1
         \<and> map_of (columns df) ''NAME''
             = Some (xs @ replicate (max (index_len t1) (index_len t2) - length xs) NaN)))
   \<and> (fst (fetch_body net DataFrame url s) = Inr tbl \<longrightarrow>
      (\<exists>j raw. DataFrame j = Inr raw
         \<and> tbl = \<lparr>index_len = index_len raw,
                  columns = map ((!) (columns raw))
                    (filter (\<lambda>i. fst (columns raw ! i) \<notin> fst ` set (take i (columns raw)))
                       [0..<length (columns raw)])\<rparr>
         \<and> distinct (map fst (columns tbl))))"
proof (intro conjI impI)
  assume ne: "frames \<noteq> []"
  let ?n = "Max (set (map index_len frames))"
  let ?wide = "concat (map (\<lambda>f. map (\<lambda>(c, xs). (c, xs @ replicate (?n - length xs) NaN))
                                     (columns f)) frames)"
  have "assemble frames = Inr (drop_duplicated \<lparr>index_len = ?n, columns = ?wide\<rparr>)"
    using concat_axis1_wide [OF ne] by (simp add: assemble_def)
  then have "assemble frames
      = Inr \<lparr>index_len = ?n,
             columns = map ((!) ?wide)
               (filter (\<lambda>i. fst (?wide ! i) \<notin> fst ` set (take i ?wide)) [0..<length ?wide])\<rparr>"
    by (simp only: drop_duplicated_positions [of "\<lparr>index_len = ?n, columns = ?wide\<rparr>"]
        frame.simps)
  then show "let n = Max (set (map index_len frames));
           wide = concat (map (\<lambda>f. map (\<lambda>(c, xs). (c, xs @ replicate (n - length xs) NaN))
                                     (columns f)) frames)
       in assemble frames
            = Inr \<lparr>index_len = n,
                   columns = map ((!) wide)
                     (filter (\<lambda>i. fst (wide ! i) \<notin> fst ` set (take i wide))
                        [0..<length wide])\<rparr>"
    by (simp only: Let_def)
next
  assume ne: "frames \<noteq> []"
  let ?n = "Max (set (map index_len frames))"
  let ?wide = "concat (map (\<lambda>f. map (\<lambda>(c, xs). (c, xs @ replicate (?n - length xs) NaN))
                                     (columns f)) frames)"
  have a: "assemble frames = Inr (drop_duplicated \<lparr>index_len = ?n, columns = ?wide\<rparr>)"
    using concat_axis1_wide [OF ne] by (simp add: assemble_def)
  have "set (map fst ?wide) = (\<Union>f \<in> set frames. set (map fst (columns f)))"
    by (auto simp add: image_iff split: prod.splits) force+
  then have "set (map fst (columns (drop_duplicated \<lparr>index_len = ?n, columns = ?wide\<rparr>)))
      = (\<Union>f \<in> set frames. set (map fst (columns f)))"
    using keep_first_names [of "[]" ?wide] by (simp only: drop_duplicated_columns frame.simps)
      simp
  with a show "\<exists>df. assemble frames = Inr df \<and> distinct (map fst (columns df))
         \<and> set (map fst (columns df)) = (\<Union>f \<in> set frames. set (map fst (columns f)))"
    by (simp add: drop_duplicated_columns keep_first_distinct)
next
  assume name: "map_of (columns t1) ''NAME'' = Some xs"
  let ?n = "max (index_len t1) (index_len t2)"
  let ?wide = "\<lparr>index_len = ?n,
      columns = map (\<lambda>(c, xs). (c, pad ?n xs)) (columns t1)
              @ map (\<lambda>(c, xs). (c, pad ?n xs)) (columns t2)\<rparr>"
  have a: "assemble [t1, t2] = Inr (drop_duplicated ?wide)"
    by (simp add: assemble_def concat_axis1_def Let_def max.commute)
  have m: "map_of (columns (drop_duplicated ?wide)) ''NAME'' = Some (pad ?n xs)"
    using name by (simp add: drop_duplicated_columns keep_first_map_of map_of_pad)
  have d: "distinct (map fst (columns (drop_duplicated ?wide)))"
    by (simp add: drop_duplicated_columns keep_first_distinct)
  from count_distinct [OF d m] a m
  show "\<exists>df. assemble [t1, t2] = Inr df
         \<and> length (filter (\<lambda>c. fst c = ''NAME'') (columns df)) = 1
         \<and> map_of (columns df) ''NAME''
             = Some (xs @ replicate (max (index_len t1) (index_len t2) - length xs) NaN)"
    by (auto simp add: pad_def)
next
  assume "fst (fetch_body net DataFrame url s) = Inr tbl"
  from fetch_body_returned [OF this] obtain j raw where
    raw: "DataFrame j = Inr raw" "tbl = drop_duplicated raw"
    by blast
  have "distinct (map fst (columns tbl))"
    using raw(2) by (simp add: drop_duplicated_columns keep_first_distinct)
  with raw drop_duplicated_positions [of raw]
  show "\<exists>j raw. DataFrame j = Inr raw
         \<and> tbl = \<lparr>index_len = index_len raw,
                  columns = map ((!) (columns raw))
                    (filter (\<lambda>i. fst (columns raw ! i) \<notin> fst ` set (take i (columns raw)))
                       [0..<length (columns raw)])\<rparr>
         \<and> distinct (map fst (columns tbl))"
    by blast
qed

lemma table_a_NAME:
  "map_of (columns table_a) ''NAME'' = Some [Val (JStr ''Tract 1''), Val (JStr ''Tract 2'')]"
  by (simp add: table_a_def)

lemma table_a_c_columns:
  "(let n = Max (set (map index_len [table_a, table_c]));
        wide = concat (map (\<lambda>f. map (\<lambda>(c, xs). (c, xs @ replicate (n - length xs) NaN))
                                  (columns f)) [table_a, table_c])
    in \<lparr>index_len = n,
        columns = map ((!) wide)
          (filter (\<lambda>i. fst (wide ! i) \<notin> fst ` set (take i wide)) [0..<length wide])\<rparr>)
   = \<lparr>index_len = 2,
      columns = [(''NAME'', [Val (JStr ''Tract 1''), Val (JStr ''Tract 2'')]),
                 (''DP02_0062PE'', [Val (JStr ''91.2''), Val (JStr ''88.0'')]),
                 (''S2301_C04_001E'', [Val (JStr ''4.1''), NaN])]\<rparr>"
  by code_simp

lemma demo_fetch_body:
  "fst (fetch_body demo_net rect_frame ''u'' init_state)
    = Inr \<lparr>index_len = 1,
           columns = [(''NAME'', [Val (JStr ''Pierce County, Washington'')]),
                      (''S1810_C02_002E'', [Val (JStr ''0.7'')]),
                      (''state'', [Val (JStr ''53'')]),
                      (''county'', [Val (JStr ''053'')])]\<rparr>"
  by code_simp

text \<open>The theorem at a two-row table followed by a one-row table (the shorter one is
  filled with \<open>NaN\<close>, its \<open>NAME\<close> column is dropped), at two tables that list the same
  tracts in different orders (the merged \<open>NAME\<close> column is the first table's), and at the
  table \<open>fetch\<close> builds from the demo network.\<close>

theorem C5_witness:
  "assemble [table_a, table_c]
     = Inr \<lparr>index_len = 2,
            columns = [(''NAME'', [Val (JStr ''Tract 1''), Val (JStr ''Tract 2'')]),
                       (''DP02_0062PE'', [Val (JStr ''91.2''), Val (JStr ''88.0'')]),
                       (''S2301_C04_001E'', [Val (JStr ''4.1''), NaN])]\<rparr>
   \<and> (\<exists>df. assemble [table_a, table_c] = Inr df \<and> distinct (map fst (columns df))
         \<and> set (map fst (columns df))
             = (\<Union>f \<in> set [table_a, table_c]. set (map fst (columns f))))
   \<and> (\<exists>df. assemble [table_a, table_b] = Inr df
      \<and> length (filter (\<lambda>c. fst c = ''NAME'') (columns df)) = 1
      \<and> map_of (columns df) ''NAME'' = Some [Val (JStr ''Tract 1''), Val (JStr ''Tract 2'')])
   \<and> distinct (map fst
        [(''NAME'', [Val (JStr ''Pierce County, Washington'')]),
         (''S1810_C02_002E'', [Val (JStr ''0.7'')]),
         (''state'', [Val (JStr ''53'')]),
         (''county'', [Val (JStr ''053'')])])"
proof -
  note th = C5_assemble_keeps_first [where frames = "[table_a, table_c]"
      and ?t1.0 = table_a and ?t2.0 = table_b
      and xs = "[Val (JStr ''Tract 1''), Val (JStr ''Tract 2'')]"
      and net = demo_net and DataFrame = rect_frame and url = "''u''" and s = init_state
      and tbl = "\<lparr>index_len = 1,
           columns = [(''NAME'', [Val (JStr ''Pierce County, Washington'')]),
                      (''S1810_C02_002E'', [Val (JStr ''0.7'')]),
                      (''state'', [Val (JStr ''53'')]),
                      (''county'', [Val (JStr ''053'')])]\<rparr>"]
  have ne: "[table_a, table_c] \<noteq> []" by simp
  from th [THEN conjunct1, THEN mp, OF ne]
  have c1: "assemble [table_a, table_c]
     = Inr \<lparr>index_len = 2,
            columns = [(''NAME'', [Val (JStr ''Tract 1''), Val (JStr ''Tract 2'')]),
                       (''DP02_0062PE'', [Val (JStr ''91.2''), Val (JStr ''88.0'')]),
                       (''S2301_C04_001E'', [Val (JStr ''4.1''), NaN])]\<rparr>"
    using table_a_c_columns unfolding Let_def by (rule trans [OF _ arg_cong])
  note c2 = th [THEN conjunct2, THEN conjunct1, THEN mp, OF ne]
  from th [THEN conjunct2, THEN conjunct2, THEN conjunct1, THEN mp, OF table_a_NAME]
  have c3: "\<exists>df. assemble [table_a, table_b] = Inr df
      \<and> length (filter (\<lambda>c. fst c = ''NAME'') (columns df)) = 1
      \<and> map_of (columns df) ''NAME'' = Some [Val (JStr ''Tract 1''), Val (JStr ''Tract 2'')]"
    by (simp add: table_a_def table_b_def)
  from th [THEN conjunct2, THEN conjunct2, THEN conjunct2, THEN mp, OF demo_fetch_body]
  have "distinct (map fst (columns \<lparr>index_len = 1,
           columns = [(''NAME'', [Val (JStr ''Pierce County, Washington'')]),
                      (''S1810_C02_002E'', [Val (JStr ''0.7'')]),
                      (''state'', [Val (JStr ''53'')]),
                      (''county'', [Val (JStr ''053'')])]\<rparr>))"
    by blast
  then have c4: "distinct (map fst
        [(''NAME'', [Val (JStr ''Pierce County, Washington'')]),
         (''S1810_C02_002E'', [Val (JStr ''0.7'')]),
         (''state'', [Val (JStr ''53'')]),
         (''county'', [Val (JStr ''053'')])])"
    by (simp only: frame.simps)
  from c1 c2 c3 c4 show ?thesis by (intro conjI)
qed

text \<open>The claim as first stated fails on the empty sequence (no indicator chosen):
  \<open>pd.concat\<close> raises.\<close>

theorem C5_counterexample:
  "assemble [] = Inl ValueError"
  by (simp add: assemble_def concat_axis1_def)

end
